theory Spec2Isabelle
  imports Main "HOL-Library.AList"
begin

section \<open>JavaScript values\<close>

text \<open>
  The accessors of \<^verbatim>\<open>index.js\<close> work on parsed JSON documents and on plain
  objects built from them. A value is \<^verbatim>\<open>undefined\<close>, \<^verbatim>\<open>null\<close>, a boolean,
  a number, a string, an array or an object. An object is the list of its own
  properties in insertion order. A number is kept as its canonical rendering
  (\<^verbatim>\<open>Number.prototype.toString\<close>), which fixes the number up to the sign of zero; the
  code never computes with the numbers of the documents, it only copies them, tests them
  for truthiness and uses them as keys.

  Only own properties are modelled. The keys that the code reads (\<^verbatim>\<open>asset\<close>,
  \<^verbatim>\<open>name\<close>, \<^verbatim>\<open>index\<close>, \<^verbatim>\<open>feed\<close>, \<^verbatim>\<open>type\<close>, \<^verbatim>\<open>abi\<close>, ...) and the keys of
  the dictionaries it builds (asset symbols, market names, contract names) are taken not to
  be names of members inherited from \<^verbatim>\<open>Object.prototype\<close>, \<^verbatim>\<open>Array.prototype\<close> or
  \<^verbatim>\<open>String.prototype\<close> (such as \<^verbatim>\<open>constructor\<close> or \<^verbatim>\<open>length\<close>), and not to
  be canonical array indices, which JavaScript would enumerate before the other keys.
\<close>

datatype json = JUndef | JNull | JBool bool | JNum string | JStr string
  | JArr "json list" | JObj "(string \<times> json) list"

type_synonym obj = "(string \<times> json) list"

text \<open>A thrown \<^verbatim>\<open>Error(message)\<close>, or a \<^verbatim>\<open>TypeError\<close> raised by the runtime.\<close>

datatype error = Error string | TypeError

definition andThen :: "error + 'a \<Rightarrow> ('a \<Rightarrow> error + 'b) \<Rightarrow> error + 'b" where
  "andThen r f = (case r of Inl e \<Rightarrow> Inl e | Inr x \<Rightarrow> f x)"

fun mapM :: "('a \<Rightarrow> error + 'b) \<Rightarrow> 'a list \<Rightarrow> error + 'b list" where
  "mapM f [] = Inr []"
| "mapM f (x # xs) =
     (case f x of
        Inl e \<Rightarrow> Inl e
      | Inr y \<Rightarrow> (case mapM f xs of Inl e \<Rightarrow> Inl e | Inr ys \<Rightarrow> Inr (y # ys)))"

fun truthy :: "json \<Rightarrow> bool" where
  "truthy JUndef = False"
| "truthy JNull = False"
| "truthy (JBool b) = b"
| "truthy (JNum n) = (n \<noteq> ''0'')"
| "truthy (JStr s) = (s \<noteq> [])"
| "truthy (JArr xs) = True"
| "truthy (JObj kvs) = True"

definition nullish :: "json \<Rightarrow> bool" where
  "nullish j = (j = JUndef \<or> j = JNull)"

fun decimal_of_nat :: "nat \<Rightarrow> string" where
  "decimal_of_nat n =
     (if n < 10 then [''0123456789'' ! n]
      else decimal_of_nat (n div 10) @ [''0123456789'' ! (n mod 10)])"

fun join_str :: "string \<Rightarrow> string list \<Rightarrow> string" where
  "join_str sep [] = []"
| "join_str sep [x] = x"
| "join_str sep (x # y # ys) = x @ sep @ join_str sep (y # ys)"

text \<open>\<^verbatim>\<open>ToString\<close>, as applied to a property key and inside a template literal.\<close>

fun to_string :: "json \<Rightarrow> string" where
  "to_string JUndef = ''undefined''"
| "to_string JNull = ''null''"
| "to_string (JBool b) = (if b then ''true'' else ''false'')"
| "to_string (JNum n) = n"
| "to_string (JStr s) = s"
| "to_string (JArr xs) =
     join_str '','' (map (\<lambda>x. if x = JUndef \<or> x = JNull then [] else to_string x) xs)"
| "to_string (JObj kvs) = ''[object Object]''"

text \<open>
  The own enumerable string-keyed properties of a value, as \<^verbatim>\<open>Object.entries\<close>,
  \<^verbatim>\<open>Object.keys\<close> and \<^verbatim>\<open>Object.assign\<close> see them: the properties of an object,
  the elements of an array under their indices, the characters of a string, and nothing
  for any other value.
\<close>

fun entries :: "json \<Rightarrow> obj" where
  "entries (JObj kvs) = kvs"
| "entries (JArr xs) = zip (map decimal_of_nat [0..<length xs]) xs"
| "entries (JStr s) = zip (map decimal_of_nat [0..<length s]) (map (\<lambda>c. JStr [c]) s)"
| "entries j = []"

definition own :: "obj \<Rightarrow> string \<Rightarrow> json" where
  "own kvs k = (case map_of kvs k of None \<Rightarrow> JUndef | Some v \<Rightarrow> v)"

text \<open>
  Reading a property: \<^verbatim>\<open>x.k\<close> and \<^verbatim>\<open>x[k]\<close>. \<open>get\<close> is the read on a value known
  not to be \<^verbatim>\<open>null\<close> or \<^verbatim>\<open>undefined\<close>; \<open>read_prop\<close> raises the \<^verbatim>\<open>TypeError\<close> of a
  read on \<^verbatim>\<open>null\<close> or \<^verbatim>\<open>undefined\<close>.
\<close>

definition get :: "json \<Rightarrow> string \<Rightarrow> json" where
  "get j k = own (entries j) k"

definition read_prop :: "json \<Rightarrow> string \<Rightarrow> error + json" where
  "read_prop j k = (if nullish j then Inl TypeError else Inr (get j k))"

definition object_entries :: "json \<Rightarrow> error + obj" where
  "object_entries j = (if nullish j then Inl TypeError else Inr (entries j))"

text \<open>
  \<^verbatim>\<open>Object.assign(target, source)\<close>: every own property of the source is written to
  the target in order; an existing key keeps its place and takes the new value, a new key
  is appended. A \<^verbatim>\<open>null\<close> or \<^verbatim>\<open>undefined\<close> source has no entries and is skipped.
\<close>

definition assign :: "obj \<Rightarrow> json \<Rightarrow> obj" where
  "assign target source = foldl (\<lambda>t (k, v). AList.update k v t) target (entries source)"

text \<open>
  Strict equality \<^verbatim>\<open>===\<close>. Two arrays or objects are equal only when they are the same
  reference; references are not modelled, and the comparison of two such values is taken
  to be false (the values compared by the code are strings in every well-formed document).
\<close>

fun strict_eq :: "json \<Rightarrow> json \<Rightarrow> bool" where
  "strict_eq (JArr xs) b = False"
| "strict_eq (JObj kvs) b = False"
| "strict_eq a b = (a = b)"

text \<open>\<^verbatim>\<open>xs.map(f)\<close>: only an array has \<^verbatim>\<open>map\<close>; the first exception of \<open>f\<close> ends it.\<close>

definition array_map :: "(json \<Rightarrow> error + json) \<Rightarrow> json \<Rightarrow> error + json" where
  "array_map f j =
     (case j of JArr xs \<Rightarrow> andThen (mapM f xs) (\<lambda>ys. Inr (JArr ys)) | _ \<Rightarrow> Inl TypeError)"

section \<open>Arguments, static data and the file system\<close>

text \<open>
  The options object that every accessor destructures. A field that is absent or
  \<^verbatim>\<open>undefined\<close> is \<open>None\<close>; \<^verbatim>\<open>useOvm\<close>, \<^verbatim>\<open>skipPopulate\<close> and \<^verbatim>\<open>byContract\<close>
  default to \<^verbatim>\<open>false\<close> wherever they are read. The \<^verbatim>\<open>path\<close> module is its
  \<^verbatim>\<open>join\<close> function. The \<^verbatim>\<open>fs\<close> module maps a path to \<open>None\<close> when
  \<^verbatim>\<open>existsSync\<close> is false, and otherwise to the outcome of
  \<^verbatim>\<open>JSON.parse(fs.readFileSync(path))\<close>.
\<close>

type_synonym path_module = "string list \<Rightarrow> string"
type_synonym fs_module = "string \<Rightarrow> (error + json) option"

record args =
  network :: "string option"
  useOvm :: bool
  deploymentPath :: "string option"
  path :: "path_module option"
  fs :: "fs_module option"
  contract :: json
  skipPopulate :: bool
  byContract :: bool

text \<open>
  The module-level constants: \<^verbatim>\<open>data\<close>, the bundled documents of every network
  folder, and \<^verbatim>\<open>__dirname\<close>. The asset registry \<^verbatim>\<open>assets\<close>
  (\<^verbatim>\<open>publish/assets.json\<close>), a dictionary of objects keyed by asset symbol, is also
  module-level, but \<^verbatim>\<open>getFeeds\<close> writes to it: it is threaded through the accessors
  as state.
\<close>

record env =
  data :: obj
  dirname :: string

type_synonym assets = "(string \<times> obj) list"

definition SYNTHS_FILENAME :: string where "SYNTHS_FILENAME = ''synths.json''"
definition STAKING_REWARDS_FILENAME :: string where "STAKING_REWARDS_FILENAME = ''rewards.json''"
definition SHORTING_REWARDS_FILENAME :: string where
  "SHORTING_REWARDS_FILENAME = ''shorting-rewards.json''"
definition DEPLOYMENT_FILENAME :: string where "DEPLOYMENT_FILENAME = ''deployment.json''"
definition VERSIONS_FILENAME :: string where "VERSIONS_FILENAME = ''versions.json''"
definition FEEDS_FILENAME :: string where "FEEDS_FILENAME = ''feeds.json''"
definition FUTURES_MARKETS_FILENAME :: string where
  "FUTURES_MARKETS_FILENAME = ''futures-markets.json''"
definition PERPS_V2_MARKETS_FILENAME :: string where
  "PERPS_V2_MARKETS_FILENAME = ''perpsv2-markets.json''"

section \<open>Network resolver\<close>

text \<open>
  \<^verbatim>\<open>String.prototype.startsWith\<close> and \<^verbatim>\<open>String.prototype.includes\<close> on
  strings, as character lists.
\<close>

definition startsWith :: "string \<Rightarrow> string \<Rightarrow> bool" where
  "startsWith s p = (take (length p) s = p)"

fun includes_str :: "string \<Rightarrow> string \<Rightarrow> bool" where
  "includes_str [] p = (p = [])"
| "includes_str (c # cs) p = (startsWith (c # cs) p \<or> includes_str cs p)"

text \<open>
  \<^verbatim>\<open>getFolderNameForNetwork = ({ network, useOvm = false }) => ...\<close>: a network
  name that already contains \<^verbatim>\<open>ovm\<close> is returned as it is; otherwise the suffix
  \<^verbatim>\<open>-ovm\<close> is appended when \<^verbatim>\<open>useOvm\<close> is set.
\<close>

definition getFolderNameForNetwork :: "string \<Rightarrow> bool \<Rightarrow> string" where
  "getFolderNameForNetwork n ovm =
     (if includes_str n ''ovm'' then n
      else if ovm then n @ ''-ovm'' else n)"

text \<open>
  \<^verbatim>\<open>getPathToNetwork({ network = 'mainnet', file = '', useOvm = false, path })\<close>.
\<close>

definition getPathToNetwork :: "env \<Rightarrow> args \<Rightarrow> string \<Rightarrow> error + string" where
  "getPathToNetwork env a file =
     (case path a of
        None \<Rightarrow> Inl TypeError
      | Some join \<Rightarrow>
          Inr (join [dirname env, ''publish'', ''deployed'',
                     getFolderNameForNetwork
                       (case network a of None \<Rightarrow> ''mainnet'' | Some n \<Rightarrow> n) (useOvm a),
                     file]))"

section \<open>Loading a facet\<close>

text \<open>
  Every accessor starts with the same test,
  \<^verbatim>\<open>!deploymentPath && (!path || !fs)\<close>: when it holds the bundled data is used.
  An empty \<^verbatim>\<open>deploymentPath\<close> is falsy.
\<close>

definition useBundle :: "args \<Rightarrow> bool" where
  "useBundle a =
     ((case deploymentPath a of None \<Rightarrow> True | Some dp \<Rightarrow> dp = [])
      \<and> (path a = None \<or> fs a = None))"

text \<open>
  \<^verbatim>\<open>data[getFolderNameForNetwork({ network, useOvm })].facet\<close>. A network that is
  \<^verbatim>\<open>undefined\<close> fails in \<^verbatim>\<open>network.includes\<close>, a folder without bundled data in
  the property read.
\<close>

definition bundled :: "env \<Rightarrow> args \<Rightarrow> string \<Rightarrow> error + json" where
  "bundled env a facet =
     (case network a of
        None \<Rightarrow> Inl TypeError
      | Some n \<Rightarrow> read_prop (own (data env) (getFolderNameForNetwork n (useOvm a))) facet)"

text \<open>
  \<^verbatim>\<open>deploymentPath ? path.join(deploymentPath, file) : getPathToNetwork({ network, useOvm, path, file })\<close>.
\<close>

definition pathToFile :: "env \<Rightarrow> args \<Rightarrow> string \<Rightarrow> error + string" where
  "pathToFile env a file =
     (case deploymentPath a of
        None \<Rightarrow> getPathToNetwork env a file
      | Some dp \<Rightarrow>
          if dp = [] then getPathToNetwork env a file
          else (case path a of
                  None \<Rightarrow> Inl TypeError
                | Some join \<Rightarrow> Inr (join [dp, file])))"

text \<open>
  \<^verbatim>\<open>if (!fs.existsSync(p)) { throw Error(message) } return JSON.parse(fs.readFileSync(p))\<close>
  for the facets that are required, and the same with a fallback value in place of the
  exception for the facets that are optional.
\<close>

definition readOrThrow :: "args \<Rightarrow> string \<Rightarrow> string \<Rightarrow> error + json" where
  "readOrThrow a p message =
     (case fs a of
        None \<Rightarrow> Inl TypeError
      | Some f \<Rightarrow> (case f p of None \<Rightarrow> Inl (Error message) | Some r \<Rightarrow> r))"

definition readOrElse :: "args \<Rightarrow> string \<Rightarrow> json \<Rightarrow> error + json" where
  "readOrElse a p fallback =
     (case fs a of
        None \<Rightarrow> Inl TypeError
      | Some f \<Rightarrow> (case f p of None \<Rightarrow> Inr fallback | Some r \<Rightarrow> r))"

definition withNetwork :: "args \<Rightarrow> args" where
  "withNetwork a =
     a\<lparr>network := Some (case network a of None \<Rightarrow> ''mainnet'' | Some n \<Rightarrow> n)\<rparr>"

text \<open>\<^verbatim>\<open>loadDeploymentFile({ network = 'mainnet', path, fs, deploymentPath, useOvm = false })\<close>.\<close>

definition loadDeploymentFile :: "env \<Rightarrow> args \<Rightarrow> error + json" where
  "loadDeploymentFile env a0 =
     (let a = withNetwork a0 in
      if useBundle a then bundled env a ''deployment''
      else andThen (pathToFile env a DEPLOYMENT_FILENAME) (\<lambda>pathToDeployment.
             readOrThrow a pathToDeployment
               (''Cannot find deployment for network: ''
                 @ (case network a of None \<Rightarrow> [] | Some n \<Rightarrow> n) @ ''.'')))"

text \<open>
  \<^verbatim>\<open>getTarget\<close> and \<^verbatim>\<open>getSource\<close>: the whole mapping when \<^verbatim>\<open>contract\<close> is
  falsy, the entry under \<^verbatim>\<open>contract\<close> otherwise.
\<close>

definition getTarget :: "env \<Rightarrow> args \<Rightarrow> error + json" where
  "getTarget env a =
     andThen (loadDeploymentFile env a) (\<lambda>deployment.
     andThen (read_prop deployment ''targets'') (\<lambda>targets.
       if truthy (contract a) then read_prop targets (to_string (contract a)) else Inr targets))"

definition getSource :: "env \<Rightarrow> args \<Rightarrow> error + json" where
  "getSource env a =
     andThen (loadDeploymentFile env a) (\<lambda>deployment.
     andThen (read_prop deployment ''sources'') (\<lambda>sources.
       if truthy (contract a) then read_prop sources (to_string (contract a)) else Inr sources))"

section \<open>Feeds and synths\<close>

text \<open>
  \<^verbatim>\<open>assets[k]\<close> as a value: \<^verbatim>\<open>undefined\<close> when the registry has no entry.
\<close>

definition asset_entry :: "assets \<Rightarrow> string \<Rightarrow> json" where
  "asset_entry assets k = (case map_of assets k of None \<Rightarrow> JUndef | Some e \<Rightarrow> JObj e)"

text \<open>
  The reduction at the end of \<^verbatim>\<open>getFeeds\<close>,
  \<^verbatim>\<open>memo[asset] = Object.assign(assets[asset], entry)\<close>: the target of the assignment
  is the registry entry itself, so the entry of the registry is overwritten with the merged
  object, and \<^verbatim>\<open>memo[asset]\<close> is that same object. \<^verbatim>\<open>Object.assign\<close> raises a
  \<^verbatim>\<open>TypeError\<close> on an \<^verbatim>\<open>undefined\<close> target; the entries written before it stay
  written.
\<close>

fun getFeeds_mixin :: "obj \<Rightarrow> obj \<Rightarrow> assets \<Rightarrow> (error + obj) \<times> assets" where
  "getFeeds_mixin [] memo assets = (Inr memo, assets)"
| "getFeeds_mixin ((asset, entry) # rest) memo assets =
     (case map_of assets asset of
        None \<Rightarrow> (Inl TypeError, assets)
      | Some target \<Rightarrow>
          (let merged = assign target entry
           in getFeeds_mixin rest (AList.update asset (JObj merged) memo)
                (AList.update asset merged assets)))"

definition getFeeds_load :: "env \<Rightarrow> args \<Rightarrow> error + json" where
  "getFeeds_load env a =
     (if useBundle a then bundled env a ''feeds''
      else andThen (pathToFile env a FEEDS_FILENAME) (\<lambda>pathToFeeds.
             readOrThrow a pathToFeeds ''Cannot find feeds file.''))"

definition getFeeds :: "env \<Rightarrow> args \<Rightarrow> assets \<Rightarrow> (error + obj) \<times> assets" where
  "getFeeds env a assets =
     (case getFeeds_load env a of
        Inl e \<Rightarrow> (Inl e, assets)
      | Inr feeds \<Rightarrow>
          (case object_entries feeds of
             Inl e \<Rightarrow> (Inl e, assets)
           | Inr es \<Rightarrow> getFeeds_mixin es [] assets))"

text \<open>\<^verbatim>\<open>Object.assign({}, assets[x.asset], x)\<close>, the join with the asset registry.\<close>

definition mixin_asset :: "assets \<Rightarrow> json \<Rightarrow> error + json" where
  "mixin_asset assets x =
     andThen (read_prop x ''asset'') (\<lambda>k.
       Inr (JObj (assign (assign [] (asset_entry assets (to_string k))) x)))"

text \<open>\<^verbatim>\<open>synths.find(({ name }) => name === s)\<close> for a string \<open>s\<close>.\<close>

fun find_by_name :: "string \<Rightarrow> json list \<Rightarrow> error + json" where
  "find_by_name s [] = Inr JUndef"
| "find_by_name s (x # xs) =
     (if nullish x then Inl TypeError
      else if strict_eq (get x ''name'') (JStr s) then Inr x
      else find_by_name s xs)"

definition index_error :: "json \<Rightarrow> json \<Rightarrow> error" where
  "index_error name index =
     Error (''While processing '' @ to_string name @ '', it's index mapping \"''
            @ to_string index
            @ ''\" cannot be found - this is an error in the deployment config and should be fixed'')"

text \<open>The callback of \<^verbatim>\<open>synths.map\<close> in \<^verbatim>\<open>getSynths\<close>.\<close>

definition getSynths_populate :: "assets \<Rightarrow> obj \<Rightarrow> json list \<Rightarrow> json \<Rightarrow> error + json" where
  "getSynths_populate assets feeds synths synth =
     andThen (read_prop synth ''asset'') (\<lambda>k.
       let s1 = assign (assign [] (asset_entry assets (to_string k))) synth;
           fe = own feeds (to_string (own s1 ''asset''));
           s2 = (if truthy fe then assign [(''feed'', get fe ''feed'')] (JObj s1) else s1)
       in andThen
            (case own s2 ''index'' of
               JStr s \<Rightarrow>
                 andThen (find_by_name s synths) (\<lambda>found.
                   let index = get (if truthy found then found else JObj []) ''index''
                   in if \<not> truthy index then Inl (index_error (own s2 ''name'') (JStr s))
                      else Inr (assign (assign [] (JObj s2)) (JObj [(''index'', index)])))
             | _ \<Rightarrow> Inr s2)
            (\<lambda>s3.
               if truthy (own s3 ''index'')
               then andThen (array_map (mixin_asset assets) (own s3 ''index'')) (\<lambda>index.
                      Inr (JObj (AList.update ''index'' index s3)))
               else Inr (JObj s3)))"

definition getSynths_load :: "env \<Rightarrow> args \<Rightarrow> error + json" where
  "getSynths_load env a =
     (if useBundle a then bundled env a ''synths''
      else andThen (pathToFile env a SYNTHS_FILENAME) (\<lambda>pathToSynthList.
             readOrThrow a pathToSynthList ''Cannot find synth list.''))"

text \<open>
  \<^verbatim>\<open>getSynths({ network = 'mainnet', path, fs, deploymentPath, useOvm = false, skipPopulate = false })\<close>.
  The registry that the callback reads is the registry as \<^verbatim>\<open>getFeeds\<close> left it.
\<close>

definition getSynths :: "env \<Rightarrow> args \<Rightarrow> assets \<Rightarrow> (error + json) \<times> assets" where
  "getSynths env a0 assets =
     (let a = withNetwork a0 in
      case getSynths_load env a of
        Inl e \<Rightarrow> (Inl e, assets)
      | Inr synths \<Rightarrow>
          if skipPopulate a then (Inr synths, assets)
          else (case getFeeds env a assets of
                  (Inl e, assets') \<Rightarrow> (Inl e, assets')
                | (Inr feeds, assets') \<Rightarrow>
                    (case synths of
                       JArr xs \<Rightarrow>
                         (array_map (getSynths_populate assets' feeds xs) synths, assets')
                     | _ \<Rightarrow> (Inl TypeError, assets'))))"

section \<open>Markets, rewards and versions\<close>

text \<open>
  The callback of \<^verbatim>\<open>futuresMarkets.map\<close> and \<^verbatim>\<open>perpsMarkets.map\<close>: the asset key
  loses its first character when it is one of the listed legacy keys, and the market is
  joined with the registry entry under the adjusted key.
\<close>

definition market_mixin :: "string list \<Rightarrow> assets \<Rightarrow> json \<Rightarrow> error + json" where
  "market_mixin marketsWithIncorrectAssetKey assets market =
     andThen (read_prop market ''asset'') (\<lambda>asset.
       let assetKeyNeedsAdjustment = (asset \<in> set (map JStr marketsWithIncorrectAssetKey));
           assetKey = (if assetKeyNeedsAdjustment then drop 1 (to_string asset)
                       else to_string asset)
       in Inr (JObj (assign (assign [] (asset_entry assets assetKey)) market)))"

text \<open>
  \<^verbatim>\<open>if (!fs.existsSync(p)) { x = [] } else { x = JSON.parse(fs.readFileSync(p)) || [] }\<close>.
\<close>

definition readOrEmpty :: "args \<Rightarrow> string \<Rightarrow> error + json" where
  "readOrEmpty a p =
     (case fs a of
        None \<Rightarrow> Inl TypeError
      | Some f \<Rightarrow>
          (case f p of
             None \<Rightarrow> Inr (JArr [])
           | Some r \<Rightarrow> andThen r (\<lambda>j. Inr (if truthy j then j else JArr []))))"

definition getFuturesMarkets :: "env \<Rightarrow> args \<Rightarrow> assets \<Rightarrow> error + json" where
  "getFuturesMarkets env a0 assets =
     (let a = withNetwork a0 in
      andThen
        (if useBundle a then bundled env a ''futuresMarkets''
         else andThen (pathToFile env a FUTURES_MARKETS_FILENAME) (readOrEmpty a))
        (array_map (market_mixin [''zBTC'', ''zETH'', ''zLINK''] assets)))"

definition getPerpsMarkets :: "env \<Rightarrow> args \<Rightarrow> assets \<Rightarrow> error + json" where
  "getPerpsMarkets env a0 assets =
     (let a = withNetwork a0 in
      andThen
        (if useBundle a then bundled env a ''perpsv2Markets''
         else andThen (pathToFile env a PERPS_V2_MARKETS_FILENAME) (readOrEmpty a))
        (array_map (market_mixin [''zBTC'', ''zETH''] assets)))"

definition getStakingRewards :: "env \<Rightarrow> args \<Rightarrow> error + json" where
  "getStakingRewards env a0 =
     (let a = withNetwork a0 in
      if useBundle a then bundled env a ''rewards''
      else andThen (pathToFile env a STAKING_REWARDS_FILENAME) (\<lambda>pathToStakingRewardsList.
             readOrElse a pathToStakingRewardsList (JArr [])))"

definition getShortingRewards :: "env \<Rightarrow> args \<Rightarrow> error + json" where
  "getShortingRewards env a0 =
     (let a = withNetwork a0 in
      if useBundle a then bundled env a ''shorting-rewards''
      else andThen (pathToFile env a SHORTING_REWARDS_FILENAME) (\<lambda>pathToShortingRewardsList.
             readOrElse a pathToShortingRewardsList (JArr [])))"

text \<open>
  The re-indexing of \<^verbatim>\<open>getVersions\<close> by contract. \<open>memo\<close> maps a contract name
  to the array collected for it so far.
\<close>

definition getVersions_push ::
  "obj \<Rightarrow> (string \<times> json list) list \<Rightarrow> string \<times> json \<Rightarrow> (string \<times> json list) list" where
  "getVersions_push stamp memo ce =
     (case ce of (c, contractEntry) \<Rightarrow>
        AList.update c
          ((case map_of memo c of None \<Rightarrow> [] | Some xs \<Rightarrow> xs) @ [JObj (assign stamp contractEntry)])
          memo)"

fun getVersions_byContract ::
  "json list \<Rightarrow> (string \<times> json list) list \<Rightarrow> error + (string \<times> json list) list" where
  "getVersions_byContract [] memo = Inr memo"
| "getVersions_byContract (v # vs) memo =
     (if nullish v then Inl TypeError
      else andThen (object_entries (get v ''contracts'')) (\<lambda>es.
             getVersions_byContract vs
               (foldl (getVersions_push
                         [(''tag'', get v ''tag''), (''release'', get v ''release''),
                          (''date'', get v ''date''), (''commit'', get v ''commit''),
                          (''block'', get v ''block'')])
                  memo es)))"

definition getVersions :: "env \<Rightarrow> args \<Rightarrow> error + json" where
  "getVersions env a0 =
     (let a = withNetwork a0 in
      andThen
        (if useBundle a then bundled env a ''versions''
         else andThen (pathToFile env a VERSIONS_FILENAME) (\<lambda>pathToVersions.
                readOrThrow a pathToVersions ''Cannot find versions for network.''))
        (\<lambda>versions.
           if byContract a
           then andThen (object_entries versions) (\<lambda>es.
                andThen (getVersions_byContract (map snd es) []) (\<lambda>memo.
                  Inr (JObj (map (\<lambda>(c, xs). (c, JArr xs)) memo))))
           else Inr versions))"

section \<open>PerpsV2 proxied markets\<close>

text \<open>
  An entry of the local dictionary \<^verbatim>\<open>PerpsV2Proxied\<close>: created as
  \<^verbatim>\<open>{ abi: [] }\<close>, it gets its \<^verbatim>\<open>address\<close> when the proxy of the market is met.
\<close>

record market =
  abi :: "json list"
  address :: "json option"

type_synonym markets = "(string \<times> market) list"

definition market_json :: "market \<Rightarrow> json" where
  "market_json m =
     JObj ((''abi'', JArr (abi m))
           # (case address m of None \<Rightarrow> [] | Some v \<Rightarrow> [(''address'', v)]))"

fun foldM :: "('b \<Rightarrow> 'a \<Rightarrow> error + 'b) \<Rightarrow> 'b \<Rightarrow> 'a list \<Rightarrow> error + 'b" where
  "foldM f acc [] = Inr acc"
| "foldM f acc (x # xs) = (case f acc x of Inl e \<Rightarrow> Inl e | Inr acc' \<Rightarrow> foldM f acc' xs)"

text \<open>What \<^verbatim>\<open>for (const x of v)\<close> iterates: the elements of an array, the characters of a string.\<close>

definition iterate :: "json \<Rightarrow> error + json list" where
  "iterate v =
     (case v of
        JArr xs \<Rightarrow> Inr xs
      | JStr s \<Rightarrow> Inr (map (\<lambda>c. JStr [c]) s)
      | _ \<Rightarrow> Inl TypeError)"

text \<open>
  The test of \<^verbatim>\<open>_consolidateAbi\<close>,
  \<^verbatim>\<open>f.type === abiFragment.type && f.name && abiFragment.name && f.name === abiFragment.name\<close>.
\<close>

definition sameFragment :: "json \<Rightarrow> json \<Rightarrow> bool" where
  "sameFragment abiFragment f =
     (strict_eq (get f ''type'') (get abiFragment ''type'')
      \<and> truthy (get f ''name'') \<and> truthy (get abiFragment ''name'')
      \<and> strict_eq (get f ''name'') (get abiFragment ''name''))"

text \<open>The body of the loop of \<^verbatim>\<open>_consolidateAbi\<close>, and the loop.\<close>

definition consolidateAbi_step :: "json list \<Rightarrow> json \<Rightarrow> error + json list" where
  "consolidateAbi_step consolidatedAbi abiFragment =
     andThen (read_prop abiFragment ''type'') (\<lambda>ty.
       if find (sameFragment abiFragment) consolidatedAbi = None
       then (if ty \<noteq> JStr ''constructor'' then Inr (consolidatedAbi @ [abiFragment])
             else Inr consolidatedAbi)
       else Inr consolidatedAbi)"

definition consolidateAbi :: "json \<Rightarrow> json list \<Rightarrow> error + json list" where
  "consolidateAbi currentAbi consolidatedAbi =
     andThen (iterate currentAbi) (foldM consolidateAbi_step consolidatedAbi)"

definition proxyPrefix :: string where "proxyPrefix = ''PerpsV2Proxy''"
definition marketPrefix :: string where "marketPrefix = ''PerpsV2Market''"
definition excludedContracts :: "string list" where
  "excludedContracts = [''PerpsV2MarketSettings'', ''PerpsV2MarketData'', ''PerpsV2ExchangeRate'']"
definition excludedLegacyContracts :: "string list" where
  "excludedLegacyContracts = [''PerpsV2DelayedOrder'', ''PerpsV2OffchainDelayedOrder'']"
definition prefixes :: "string list" where
  "prefixes = [''PerpsV2MarketViews'', ''PerpsV2DelayedIntent'', ''PerpsV2DelayedExecution'',
               ''PerpsV2MarketLiquidate'']"

text \<open>
  \<^verbatim>\<open>if (!PerpsV2Proxied[marketName]) { PerpsV2Proxied[marketName] = {}; PerpsV2Proxied[marketName].abi = [] }\<close>.
\<close>

definition initMarket :: "markets \<Rightarrow> string \<Rightarrow> markets" where
  "initMarket PerpsV2Proxied marketName =
     (case map_of PerpsV2Proxied marketName of
        None \<Rightarrow> AList.update marketName \<lparr>abi = [], address = None\<rparr> PerpsV2Proxied
      | Some m \<Rightarrow> PerpsV2Proxied)"

text \<open>
  The market name of a component: the loop over \<^verbatim>\<open>prefixes\<close> has no
  \<^verbatim>\<open>break\<close>, the last prefix that matches decides; \<^verbatim>\<open>marketPrefix\<close> is tried
  when none did.
\<close>

definition componentMarketName :: "string \<Rightarrow> string option" where
  "componentMarketName target =
     (case foldl (\<lambda>found prefix.
                    if startsWith target prefix then Some (drop (length prefix) target)
                    else found)
             None prefixes of
        Some marketName \<Rightarrow> Some marketName
      | None \<Rightarrow>
          if startsWith target marketPrefix then Some (drop (length marketPrefix) target)
          else None)"

definition analyzeAndIncludePerpsV2 ::
  "string \<Rightarrow> json \<Rightarrow> json \<Rightarrow> markets \<Rightarrow> error + markets" where
  "analyzeAndIncludePerpsV2 target targetData sourceData PerpsV2Proxied =
     (if target \<in> set excludedContracts \<or> startsWith target ''PerpsV2MarketState''
         \<or> list_ex (startsWith target) excludedLegacyContracts
      then Inr PerpsV2Proxied
      else if startsWith target proxyPrefix
      then (let marketName = drop (length proxyPrefix) target;
                P = initMarket PerpsV2Proxied marketName
            in andThen (read_prop targetData ''address'') (\<lambda>addr.
                 Inr (AList.map_entry marketName (\<lambda>m. m\<lparr>address := Some addr\<rparr>) P)))
      else (case componentMarketName target of
              None \<Rightarrow> Inr PerpsV2Proxied
            | Some marketName \<Rightarrow>
                (let P = initMarket PerpsV2Proxied marketName
                 in andThen (read_prop sourceData ''abi'') (\<lambda>currentAbi.
                    andThen (consolidateAbi currentAbi
                               (case map_of P marketName of None \<Rightarrow> [] | Some m \<Rightarrow> abi m))
                      (\<lambda>consolidated.
                         Inr (AList.map_entry marketName (\<lambda>m. m\<lparr>abi := consolidated\<rparr>) P))))))"

text \<open>
  The loop over the target names. \<^verbatim>\<open>getTarget\<close> and \<^verbatim>\<open>getSource\<close> are called
  with \<^verbatim>\<open>useOvm: false\<close>.
\<close>

fun getPerpsV2ProxiedMarkets_loop ::
  "env \<Rightarrow> args \<Rightarrow> string list \<Rightarrow> markets \<Rightarrow> error + markets" where
  "getPerpsV2ProxiedMarkets_loop env a [] PerpsV2Proxied = Inr PerpsV2Proxied"
| "getPerpsV2ProxiedMarkets_loop env a (target # targets) PerpsV2Proxied =
     (if \<not> startsWith target ''PerpsV2''
      then getPerpsV2ProxiedMarkets_loop env a targets PerpsV2Proxied
      else andThen (getTarget env (a\<lparr>contract := JStr target, useOvm := False\<rparr>)) (\<lambda>targetData.
           andThen (read_prop targetData ''source'') (\<lambda>source.
           andThen (getSource env (a\<lparr>contract := source, useOvm := False\<rparr>)) (\<lambda>sourceData.
           andThen (analyzeAndIncludePerpsV2 target targetData sourceData PerpsV2Proxied)
             (getPerpsV2ProxiedMarkets_loop env a targets)))))"

text \<open>
  \<^verbatim>\<open>getPerpsV2ProxiedMarkets({ network = 'mainnet', fs, deploymentPath, path })\<close>: the
  function does not destructure \<^verbatim>\<open>useOvm\<close>, and passes the literal \<^verbatim>\<open>false\<close>
  to \<^verbatim>\<open>loadDeploymentFile\<close>.
\<close>

definition getPerpsV2ProxiedMarkets_markets :: "env \<Rightarrow> args \<Rightarrow> error + markets" where
  "getPerpsV2ProxiedMarkets_markets env a0 =
     (let a = withNetwork a0 in
      andThen (loadDeploymentFile env (a\<lparr>useOvm := False\<rparr>)) (\<lambda>deploymentData.
      andThen (read_prop deploymentData ''targets'') (\<lambda>ts.
      andThen (object_entries ts) (\<lambda>es.
        getPerpsV2ProxiedMarkets_loop env a (map fst es) []))))"

definition getPerpsV2ProxiedMarkets :: "env \<Rightarrow> args \<Rightarrow> error + json" where
  "getPerpsV2ProxiedMarkets env a0 =
     andThen (getPerpsV2ProxiedMarkets_markets env a0) (\<lambda>PerpsV2Proxied.
       Inr (JObj (map (\<lambda>(marketName, m). (marketName, market_json m)) PerpsV2Proxied)))"

section \<open>The binding factory\<close>

text \<open>
  \<^verbatim>\<open>wrap\<close> binds \<^verbatim>\<open>{ network, deploymentPath, fs, path, useOvm = false }\<close> and
  calls the accessor on \<^verbatim>\<open>Object.assign({ network, deploymentPath, fs, path, useOvm }, prop)\<close>.
  In \<open>props\<close> a field is \<open>None\<close> when \<^verbatim>\<open>prop\<close> has no such key, and \<open>Some v\<close>
  when it has it with the value \<open>v\<close> (which may itself be \<^verbatim>\<open>undefined\<close>).
\<close>

record props =
  p_network :: "string option option"
  p_useOvm :: "bool option"
  p_deploymentPath :: "string option option"
  p_path :: "path_module option option"
  p_fs :: "fs_module option option"
  p_contract :: "json option"
  p_skipPopulate :: "bool option"
  p_byContract :: "bool option"

definition wrap_args :: "args \<Rightarrow> props \<Rightarrow> args" where
  "wrap_args b p =
     \<lparr>network = (case p_network p of None \<Rightarrow> network b | Some v \<Rightarrow> v),
      useOvm = (case p_useOvm p of None \<Rightarrow> useOvm b | Some v \<Rightarrow> v),
      deploymentPath = (case p_deploymentPath p of None \<Rightarrow> deploymentPath b | Some v \<Rightarrow> v),
      path = (case p_path p of None \<Rightarrow> path b | Some v \<Rightarrow> v),
      fs = (case p_fs p of None \<Rightarrow> fs b | Some v \<Rightarrow> v),
      contract = (case p_contract p of None \<Rightarrow> JUndef | Some v \<Rightarrow> v),
      skipPopulate = (case p_skipPopulate p of None \<Rightarrow> False | Some v \<Rightarrow> v),
      byContract = (case p_byContract p of None \<Rightarrow> False | Some v \<Rightarrow> v)\<rparr>"

definition wrap_getPerpsV2ProxiedMarkets :: "env \<Rightarrow> args \<Rightarrow> props \<Rightarrow> error + json" where
  "wrap_getPerpsV2ProxiedMarkets env b p = getPerpsV2ProxiedMarkets env (wrap_args b p)"

section \<open>Key encoding\<close>

text \<open>
  \<^verbatim>\<open>toBytes32 = key => w3utils.rightPad(w3utils.asciiToHex(key), 64)\<close> and
  \<^verbatim>\<open>fromBytes32 = key => w3utils.hexToAscii(key)\<close> are one-line wrappers of three
  functions of the library web3-utils (1.x), which is a dependency and not part of the
  repository. The three functions are transcribed here from the library: \<^verbatim>\<open>asciiToHex\<close>
  writes every character code as two hexadecimal digits after \<^verbatim>\<open>0x\<close> (and gives
  \<^verbatim>\<open>0x00\<close> for the empty string); \<^verbatim>\<open>rightPad(s, n)\<close> appends zeros to the
  digits until there are \<open>n\<close> of them; \<^verbatim>\<open>hexToAscii\<close> refuses what is not
  \<^verbatim>\<open>/^(-)?0x[0-9a-f]*$/i\<close> and otherwise maps every slice of two characters through
  \<^verbatim>\<open>String.fromCharCode(parseInt(slice, 16))\<close>, keeping every character it decodes.
  Strings are lists of 8-bit characters, which covers the ASCII strings that are encoded.
\<close>

definition hexDigit :: "nat \<Rightarrow> char" where
  "hexDigit n = ''0123456789abcdef'' ! n"

definition hexByte :: "char \<Rightarrow> string" where
  "hexByte c = [hexDigit (of_char c div 16), hexDigit (of_char c mod 16)]"

definition asciiToHex :: "string \<Rightarrow> string" where
  "asciiToHex str = (if str = [] then ''0x00'' else ''0x'' @ concat (map hexByte str))"

definition hasHexPrefix :: "string \<Rightarrow> bool" where
  "hasHexPrefix s = (take 2 s = ''0x'' \<or> take 2 s = ''0X'')"

definition rightPad :: "string \<Rightarrow> nat \<Rightarrow> string" where
  "rightPad s chars =
     (let digits = (if hasHexPrefix s then drop 2 s else s)
      in (if hasHexPrefix s then ''0x'' else []) @ digits
         @ replicate (chars - length digits) (CHR ''0''))"

definition hexDigitVal :: "char \<Rightarrow> nat option" where
  "hexDigitVal c =
     (let n = (of_char c :: nat)
      in if 48 \<le> n \<and> n \<le> 57 then Some (n - 48)
         else if 97 \<le> n \<and> n \<le> 102 then Some (n - 87)
         else if 65 \<le> n \<and> n \<le> 70 then Some (n - 55)
         else None)"

definition isHexStrict :: "string \<Rightarrow> bool" where
  "isHexStrict s =
     (let t = (if take 1 s = ''-'' then drop 1 s else s)
      in hasHexPrefix t \<and> list_all (\<lambda>c. hexDigitVal c \<noteq> None) (drop 2 t))"

text \<open>
  \<^verbatim>\<open>parseInt(slice, 16)\<close> on a slice of a string that passed \<^verbatim>\<open>isHexStrict\<close>
  (it holds no white space): a sign, a \<^verbatim>\<open>0x\<close> prefix, then the longest run of
  hexadecimal digits; \<open>None\<close> is \<^verbatim>\<open>NaN\<close>, which \<^verbatim>\<open>String.fromCharCode\<close> maps
  to the character 0.
\<close>

definition parseInt16 :: "string \<Rightarrow> int option" where
  "parseInt16 s =
     (let neg = (take 1 s = ''-'');
          t = (if neg \<or> take 1 s = ''+'' then drop 1 s else s);
          u = (if hasHexPrefix t then drop 2 t else t);
          ds = takeWhile (\<lambda>c. hexDigitVal c \<noteq> None) u
      in if ds = [] then None
         else Some ((if neg then - 1 else 1)
                * int (foldl (\<lambda>acc c. 16 * acc + (case hexDigitVal c of None \<Rightarrow> 0 | Some d \<Rightarrow> d))
                         0 ds)))"

definition fromCharCode :: "int option \<Rightarrow> char" where
  "fromCharCode code = (case code of None \<Rightarrow> CHR 0x00 | Some n \<Rightarrow> char_of (n mod 65536))"

fun hexToAscii_loop :: "string \<Rightarrow> string" where
  "hexToAscii_loop (a # b # rest) = fromCharCode (parseInt16 [a, b]) # hexToAscii_loop rest"
| "hexToAscii_loop [a] = [fromCharCode (parseInt16 [a])]"
| "hexToAscii_loop [] = []"

definition hexToAscii :: "json \<Rightarrow> error + string" where
  "hexToAscii hex =
     (case hex of
        JStr s \<Rightarrow>
          if isHexStrict s
          then Inr (hexToAscii_loop (if take 2 s = ''0x'' then drop 2 s else s))
          else Inl (Error ''The parameter must be a valid HEX string.'')
      | _ \<Rightarrow> Inl (Error ''The parameter must be a valid HEX string.''))"

definition toBytes32 :: "string \<Rightarrow> string" where
  "toBytes32 key = rightPad (asciiToHex key) 64"

definition fromBytes32 :: "json \<Rightarrow> error + string" where
  "fromBytes32 key = hexToAscii key"

section \<open>Enhancing a decoded call\<close>

text \<open>
  \<^verbatim>\<open>enhanceDecodedData\<close> with its three local helpers. The global function
  \<^verbatim>\<open>isNaN\<close> on a key and \<^verbatim>\<open>w3utils.toBN\<close> are parameters: \<open>isNaN k\<close> tells
  whether \<^verbatim>\<open>Number(k)\<close> is \<^verbatim>\<open>NaN\<close>, and \<open>toBN v\<close> is the integer of \<open>v\<close> or the
  exception that the library raises. The division of \<^verbatim>\<open>BN\<close> truncates towards zero.
\<close>

definition sentinel :: json where
  "sentinel = JObj [(''ascii'', JStr ([CHR 0x5C] @ ''error decoding'' @ [CHR 0x5C]))]"

definition decodedBytes32 :: "json \<Rightarrow> json" where
  "decodedBytes32 p =
     (case fromBytes32 p of
        Inl e \<Rightarrow> sentinel
      | Inr s \<Rightarrow> JObj [(''ascii'', JStr (filter (\<lambda>c. c \<noteq> CHR 0x00) s))])"

definition isDigit :: "char \<Rightarrow> bool" where
  "isDigit c = (48 \<le> (of_char c :: nat) \<and> (of_char c :: nat) \<le> 57)"

text \<open>
  \<^verbatim>\<open>number.toString().replace(/(\d)(?=(\d{3})+(?!\d))/g, '$1,')\<close>: a comma follows
  every digit after which the run of digits has a positive length that is a multiple of 3.
\<close>

fun formatDecimals :: "string \<Rightarrow> string" where
  "formatDecimals [] = []"
| "formatDecimals (c # cs) =
     (let run = length (takeWhile isDigit cs)
      in if isDigit c \<and> 0 < run \<and> run mod 3 = 0 then c # CHR '','' # formatDecimals cs
         else c # formatDecimals cs)"

text \<open>The decimal rendering of \<^verbatim>\<open>BN.prototype.toString\<close>.\<close>

definition decimal_of_int :: "int \<Rightarrow> string" where
  "decimal_of_int v =
     (if 0 \<le> v then decimal_of_nat (nat v) else CHR ''-'' # decimal_of_nat (nat \<bar>v\<bar>))"

definition bn_div :: "int \<Rightarrow> int \<Rightarrow> int" where
  "bn_div a b = sgn a * sgn b * (\<bar>a\<bar> div \<bar>b\<bar>)"

definition decodeUint :: "(json \<Rightarrow> error + int) \<Rightarrow> json \<Rightarrow> json" where
  "decodeUint toBN p =
     (case toBN p of
        Inl e \<Rightarrow> sentinel
      | Inr v \<Rightarrow>
          JObj [(''bp'', JStr (decimal_of_int (bn_div v (10 ^ 14)))),
                (''decimal'', JStr (formatDecimals (decimal_of_int (bn_div v (10 ^ 18))))),
                (''number'', JStr (formatDecimals (decimal_of_int v)))])"

text \<open>
  \<^verbatim>\<open>/u?int[1-3][0-9]?./.test(type)\<close>. The dot matches any character but a line
  terminator.
\<close>

definition anyChar :: "string \<Rightarrow> bool" where
  "anyChar s = (case s of [] \<Rightarrow> False | c # cs \<Rightarrow> c \<noteq> CHR 0x0A \<and> c \<noteq> CHR 0x0D)"

definition intTypeFrom :: "string \<Rightarrow> bool" where
  "intTypeFrom s =
     (startsWith s ''int''
      \<and> (case drop 3 s of
            [] \<Rightarrow> False
          | d # r \<Rightarrow>
              d \<in> set ''123''
              \<and> ((case r of [] \<Rightarrow> False | e # r' \<Rightarrow> isDigit e \<and> anyChar r') \<or> anyChar r)))"

fun isIntType :: "string \<Rightarrow> bool" where
  "isIntType [] = False"
| "isIntType (c # cs) =
     ((c = CHR ''u'' \<and> intTypeFrom cs) \<or> intTypeFrom (c # cs) \<or> isIntType cs)"

text \<open>
  The body of the loop over the named keys of a tuple. \<^verbatim>\<open>p.value[key].startsWith\<close>
  is a function only when the field is a string.
\<close>

definition enhanceTupleField ::
  "(json \<Rightarrow> error + int) \<Rightarrow> json \<Rightarrow> obj \<Rightarrow> string \<Rightarrow> error + obj" where
  "enhanceTupleField toBN v values key =
     (case get v key of
        JStr s \<Rightarrow>
          if startsWith s ''0x''
          then (if length s = 66
                then Inr (AList.update key
                            (JObj [(''original'', JStr s), (''enhanced'', decodedBytes32 (JStr s))])
                            values)
                else Inr (AList.update key (JStr s) values))
          else Inr (AList.update key
                      (JObj [(''original'', JStr s), (''enhanced'', decodeUint toBN (JStr s))])
                      values)
      | _ \<Rightarrow> Inl TypeError)"

definition set_prop :: "json \<Rightarrow> string \<Rightarrow> json \<Rightarrow> json" where
  "set_prop j k v = (case j of JObj kvs \<Rightarrow> JObj (AList.update k v kvs) | _ \<Rightarrow> j)"

text \<open>
  The callback of \<^verbatim>\<open>decoded.method.params.map\<close>. The array \<^verbatim>\<open>values\<close> of the
  tuple branch only ever gets named properties; it is represented by the object of these
  properties.
\<close>

definition enhanceParam ::
  "(string \<Rightarrow> bool) \<Rightarrow> (json \<Rightarrow> error + int) \<Rightarrow> json \<Rightarrow> error + json" where
  "enhanceParam isNaN toBN p0 =
     andThen (read_prop p0 ''type'') (\<lambda>ty.
       if ty = JStr ''bytes32''
       then Inr (JObj (AList.update ''enhanced'' (decodedBytes32 (get p0 ''value'')) (assign [] p0)))
       else andThen
              (if ty = JStr ''bytes32[]''
               then andThen
                      (array_map
                         (\<lambda>original. Inr (JObj [(''original'', original),
                                                 (''enhanced'', decodedBytes32 original)]))
                         (get p0 ''value''))
                      (\<lambda>v. Inr (set_prop p0 ''value'' v))
               else Inr p0)
              (\<lambda>p.
                 if isIntType (to_string (get p ''type''))
                 then Inr (JObj (AList.update ''enhanced'' (decodeUint toBN (get p ''value''))
                                   (assign [] p)))
                 else if get p ''type'' = JStr ''tuple''
                 then andThen (object_entries (get p ''value'')) (\<lambda>es.
                      andThen (foldM (enhanceTupleField toBN (get p ''value'')) []
                                 (filter isNaN (map fst es)))
                        (\<lambda>values. Inr (set_prop p ''value'' (JObj values))))
                 else Inr p))"

definition enhanceDecodedData ::
  "(string \<Rightarrow> bool) \<Rightarrow> (json \<Rightarrow> error + int) \<Rightarrow> json \<Rightarrow> error + json" where
  "enhanceDecodedData isNaN toBN decoded =
     andThen (read_prop decoded ''method'') (\<lambda>method.
     andThen (read_prop method ''params'') (\<lambda>params.
     andThen (array_map (enhanceParam isNaN toBN) params) (\<lambda>enhancedParams.
       Inr (JObj (AList.update ''method''
                    (JObj (AList.update ''params'' enhancedParams (assign [] method)))
                    (assign [] decoded))))))"

section \<open>Predicates of the proofs\<close>

text \<open>
  A fragment list is in order when it holds no constructor fragment and no fragment
  passes the test of \<^verbatim>\<open>_consolidateAbi\<close> against an earlier one.
\<close>

definition abi_ok :: "json list \<Rightarrow> bool" where
  "abi_ok frs = ((\<forall>f \<in> set frs. get f ''type'' \<noteq> JStr ''constructor'')
       \<and> (\<forall>i j. i < j \<longrightarrow> j < length frs \<longrightarrow> \<not> sameFragment (frs ! j) (frs ! i)))"

definition markets_ok :: "markets \<Rightarrow> bool" where
  "markets_ok P = (\<forall>(k, m) \<in> set P. abi_ok (abi m))"

text \<open>
  The entries of the asset registry are objects: no key occurs twice in one of them. The
  dictionary that \<^verbatim>\<open>getFeeds\<close> returns holds, under every key, the object that the
  registry holds under that key after the call.
\<close>

definition wf_assets :: "assets \<Rightarrow> bool" where
  "wf_assets assets = (\<forall>(k, e) \<in> set assets. distinct (map fst e))"

definition feeds_in_registry :: "obj \<Rightarrow> assets \<Rightarrow> bool" where
  "feeds_in_registry feeds assets =
     (\<forall>k v. map_of feeds k = Some v \<longrightarrow> (\<exists>e. v = JObj e \<and> map_of assets k = Some e))"

text \<open>
  The two first steps of the callback of \<^verbatim>\<open>getSynths\<close> on a synth record \<open>r\<close>: the
  join with the registry, and the default for \<^verbatim>\<open>feed\<close>.
\<close>

definition synth_base :: "assets \<Rightarrow> obj \<Rightarrow> obj" where
  "synth_base assets r = assign (assign [] (asset_entry assets (to_string (own r ''asset'')))) (JObj r)"

definition synth_feed :: "assets \<Rightarrow> obj \<Rightarrow> obj \<Rightarrow> obj" where
  "synth_feed assets feeds r =
     (let s1 = synth_base assets r; fe = own feeds (to_string (own s1 ''asset''))
      in if truthy fe then assign [(''feed'', get fe ''feed'')] (JObj s1) else s1)"

text \<open>
  An explicit location is given and the facet file is not there: the path of the file can
  be built, \<^verbatim>\<open>fs\<close> is supplied and \<^verbatim>\<open>fs.existsSync\<close> is false on the path.
\<close>

definition absent :: "env \<Rightarrow> args \<Rightarrow> string \<Rightarrow> bool" where
  "absent env a file =
     (case pathToFile env a file of
        Inl e \<Rightarrow> False
      | Inr p \<Rightarrow> (case fs a of None \<Rightarrow> False | Some f \<Rightarrow> f p = None))"

section \<open>Example documents\<close>

text \<open>
  A registry of two assets and the bundled data of four networks. On \<^verbatim>\<open>mainnet\<close>
  the synth \<^verbatim>\<open>iDEFI\<close> names the index of \<^verbatim>\<open>zDEFI\<close>; on \<^verbatim>\<open>goerli\<close> it
  names a synth that the list does not have; on \<^verbatim>\<open>sepolia\<close> the record of
  \<^verbatim>\<open>zBTC\<close> has a \<^verbatim>\<open>feed\<close> of its own.
\<close>

definition bundle_args :: "string option \<Rightarrow> args" where
  "bundle_args n =
     \<lparr>network = n, useOvm = False, deploymentPath = None, path = None, fs = None,
      contract = JUndef, skipPopulate = False, byContract = False\<rparr>"

definition ex_assets :: assets where
  "ex_assets =
     [(''BTC'', [(''asset'', JStr ''BTC''), (''category'', JStr ''crypto'')]),
      (''DEFI'', [(''category'', JStr ''index'')])]"

definition ex_synths :: "json list" where
  "ex_synths =
     [JObj [(''name'', JStr ''zBTC''), (''asset'', JStr ''BTC''), (''feed'', JStr ''0xRAW'')],
      JObj [(''name'', JStr ''zDEFI''), (''asset'', JStr ''DEFI''),
            (''index'', JArr [JObj [(''asset'', JStr ''BTC''), (''weight'', JNum ''2'')]])],
      JObj [(''name'', JStr ''iDEFI''), (''asset'', JStr ''DEFI''), (''index'', JStr ''zDEFI'')],
      JObj [(''name'', JStr ''zETH''), (''asset'', JStr ''BTC'')]]"

definition ex_env :: env where
  "ex_env =
     \<lparr>data =
        [(''mainnet'',
          JObj [(''feeds'', JObj [(''BTC'', JObj [(''feed'', JStr ''0xFEED'')])]),
                (''synths'', JArr ex_synths)]),
         (''testnet'',
          JObj [(''feeds'', JObj []),
                (''synths'', JArr [JObj [(''name'', JStr ''zBTC''), (''asset'', JStr ''BTC'')]])]),
         (''sepolia'',
          JObj [(''feeds'', JObj [(''BTC'', JObj [(''feed'', JStr ''0xFEED'')])]),
                (''synths'',
                 JArr [JObj [(''name'', JStr ''zBTC''), (''asset'', JStr ''BTC''),
                             (''feed'', JStr ''0xRAW'')]])]),
         (''goerli'',
          JObj [(''feeds'', JObj []),
                (''synths'',
                 JArr [JObj [(''name'', JStr ''iDEFI''), (''asset'', JStr ''DEFI''),
                             (''index'', JStr ''zDEFI'')]])])],
      dirname = ''/app''\<rparr>"

text \<open>
  Deployment documents with one PerpsV2 market, \<^verbatim>\<open>BTC\<close>: its proxy, its views
  component and either the settings contract or a second component. The third document
  has the targets of the first in the opposite order, and a proxy target with more
  properties than its address.
\<close>

definition ex_deployment :: "json list \<Rightarrow> json" where
  "ex_deployment viewsAbi =
     JObj [(''targets'',
            JObj [(''PerpsV2ProxyBTC'', JObj [(''address'', JStr ''0xA'')]),
                  (''PerpsV2MarketViewsBTC'', JObj [(''source'', JStr ''PerpsV2MarketViews'')]),
                  (''PerpsV2MarketSettings'', JObj [(''source'', JStr ''PerpsV2MarketSettings'')])]),
           (''sources'',
            JObj [(''PerpsV2MarketViews'', JObj [(''abi'', JArr viewsAbi)])])]"

definition ex_deployment2 :: "json list \<Rightarrow> json list \<Rightarrow> json" where
  "ex_deployment2 viewsAbi liquidateAbi =
     JObj [(''targets'',
            JObj [(''PerpsV2ProxyBTC'', JObj [(''address'', JStr ''0xA'')]),
                  (''PerpsV2MarketViewsBTC'', JObj [(''source'', JStr ''PerpsV2MarketViews'')]),
                  (''PerpsV2MarketLiquidateBTC'',
                   JObj [(''source'', JStr ''PerpsV2MarketLiquidate'')])]),
           (''sources'',
            JObj [(''PerpsV2MarketViews'', JObj [(''abi'', JArr viewsAbi)]),
                  (''PerpsV2MarketLiquidate'', JObj [(''abi'', JArr liquidateAbi)])])]"

definition ex_deployment_reordered :: "json list \<Rightarrow> json" where
  "ex_deployment_reordered viewsAbi =
     JObj [(''sources'',
            JObj [(''PerpsV2MarketViews'', JObj [(''abi'', JArr viewsAbi)])]),
           (''targets'',
            JObj [(''PerpsV2MarketSettings'', JObj [(''source'', JStr ''PerpsV2MarketSettings'')]),
                  (''PerpsV2MarketViewsBTC'', JObj [(''source'', JStr ''PerpsV2MarketViews'')]),
                  (''PerpsV2ProxyBTC'',
                   JObj [(''name'', JStr ''PerpsV2ProxyBTC''), (''source'', JStr ''ProxyPerpsV2''),
                         (''address'', JStr ''0xA'')])])]"

definition ex_perps_env :: "json \<Rightarrow> env" where
  "ex_perps_env deployment =
     \<lparr>data = [(''mainnet'', JObj [(''deployment'', deployment)]),
              (''mainnet-ovm'',
               JObj [(''deployment'', JObj [(''targets'', JObj []), (''sources'', JObj [])])])],
      dirname = ''/app''\<rparr>"

definition ex_function :: "string \<Rightarrow> json" where
  "ex_function n = JObj [(''type'', JStr ''function''), (''name'', JStr n)]"

definition ex_receive :: json where
  "ex_receive = JObj [(''type'', JStr ''receive''), (''stateMutability'', JStr ''payable'')]"

definition ex_constructor :: json where
  "ex_constructor = JObj [(''type'', JStr ''constructor''), (''inputs'', JArr [])]"

text \<open>
  Arguments that name a directory in which no file exists, an empty \<^verbatim>\<open>prop\<close> for
  \<^verbatim>\<open>wrap\<close>, and a decoded call whose only parameter is a tuple with a boolean field.
\<close>

definition disk_args :: args where
  "disk_args =
     \<lparr>network = None, useOvm = False, deploymentPath = Some ''/deploy'',
      path = Some (join_str ''/''), fs = Some (\<lambda>p. None),
      contract = JUndef, skipPopulate = False, byContract = False\<rparr>"

definition no_props :: props where
  "no_props =
     \<lparr>p_network = None, p_useOvm = None, p_deploymentPath = None, p_path = None, p_fs = None,
      p_contract = None, p_skipPopulate = None, p_byContract = None\<rparr>"

definition ex_decoded :: json where
  "ex_decoded =
     JObj [(''method'',
            JObj [(''name'', JStr ''setConfig''),
                  (''params'',
                   JArr [JObj [(''name'', JStr ''config''), (''type'', JStr ''tuple''),
                               (''value'', JObj [(''0'', JBool True), (''flag'', JBool True)])]])]),
           (''contract'', JStr ''PerpsV2MarketSettings'')]"

section \<open>Properties of the network resolver\<close>

lemma includes_append_right: "includes_str ys p \<Longrightarrow> includes_str (xs @ ys) p"
  by (induction xs) simp_all

lemma includes_ovm_suffix: "includes_str (n @ ''-ovm'') ''ovm''"
  by (rule includes_append_right) (simp add: startsWith_def)

text \<open>
  C9. Folder-key resolution is idempotent: for every network name and every useOvm flag,
  resolving the resolver's own output with the same flag gives the key of a single
  resolution.
\<close>

theorem getFolderNameForNetwork_idempotent:
  "getFolderNameForNetwork (getFolderNameForNetwork n ovm) ovm
     = getFolderNameForNetwork n ovm"
  by (simp add: getFolderNameForNetwork_def includes_ovm_suffix)

theorem getFolderNameForNetwork_idempotent_witness:
  "getFolderNameForNetwork (getFolderNameForNetwork ''mainnet'' True) True = ''mainnet-ovm''
   \<and> getFolderNameForNetwork ''mainnet'' True = ''mainnet-ovm''"
  using getFolderNameForNetwork_idempotent [of "''mainnet''" True]
  by (simp add: getFolderNameForNetwork_def startsWith_def)

section \<open>Properties of \<^verbatim>\<open>Object.assign\<close>\<close>

text \<open>
  On an object whose keys are distinct, the fields of the source win and the other fields
  of the target stay.
\<close>

lemma map_of_foldl_update:
  "map_of (foldl (\<lambda>t (k, v). AList.update k v t) t kvs) = map_of t ++ map_of (rev kvs)"
  by (induction kvs arbitrary: t) (auto simp: update_conv' map_add_upd_left)

lemma map_of_assign: "map_of (assign t src) = map_of t ++ map_of (rev (entries src))"
  by (simp add: assign_def map_of_foldl_update)

lemma map_of_rev_distinct: "distinct (map fst xs) \<Longrightarrow> map_of (rev xs) = map_of xs"
proof (induction xs)
  case Nil
  show ?case by simp
next
  case (Cons x xs)
  then have "map_of xs (fst x) = None"
    by (simp add: map_of_eq_None_iff)
  with Cons show ?case
    by (auto simp: map_add_def fun_eq_iff split: option.splits)
qed

lemma own_assign:
  assumes "distinct (map fst (entries src))"
  shows "own (assign t src) k
           = (if k \<in> fst ` set (entries src) then own (entries src) k else own t k)"
proof (cases "map_of (entries src) k")
  case None
  then have "k \<notin> fst ` set (entries src)"
    by (simp add: map_of_eq_None_iff)
  with None show ?thesis
    by (simp add: own_def map_of_assign map_add_def map_of_rev_distinct [OF assms])
next
  case (Some v)
  then have "k \<in> fst ` set (entries src)"
    by (metis map_of_eq_None_iff option.distinct(1))
  with Some show ?thesis
    by (simp add: own_def map_of_assign map_add_def map_of_rev_distinct [OF assms])
qed

lemma distinct_foldl_update:
  "distinct (map fst t) \<Longrightarrow> distinct (map fst (foldl (\<lambda>t (k, v). AList.update k v t) t kvs))"
  by (induction kvs arbitrary: t) (auto simp: distinct_update)

lemma distinct_assign: "distinct (map fst t) \<Longrightarrow> distinct (map fst (assign t src))"
  by (simp add: assign_def distinct_foldl_update)

lemma own_update: "own (AList.update k v t) k' = (if k' = k then v else own t k')"
  by (simp add: own_def update_conv')

lemma keys_assign: "fst ` set (assign t src) = fst ` set t \<union> fst ` set (entries src)"
proof -
  have "dom (map_of (assign t src)) = dom (map_of t) \<union> dom (map_of (rev (entries src)))"
    by (simp add: map_of_assign Un_commute)
  then show ?thesis by (simp add: dom_map_of_conv_image_fst)
qed

lemma own_notin: "k \<notin> fst ` set s \<Longrightarrow> own s k = JUndef"
  by (simp add: own_def map_of_eq_None_iff [symmetric] del: map_of_eq_None_iff)

lemma own_copy: "distinct (map fst s) \<Longrightarrow> own (assign [] (JObj s)) k = own s k"
  by (simp add: own_assign own_notin)

lemma own_key_in: "own r k = JStr s \<Longrightarrow> k \<in> fst ` set r"
  by (auto simp: own_def split: option.splits dest!: map_of_SomeD intro: rev_image_eqI)

lemma own_key_in': "own r k \<noteq> JUndef \<Longrightarrow> k \<in> fst ` set r"
  using own_notin by blast

lemma map_of_key_in: "map_of r k = Some v \<Longrightarrow> k \<in> fst ` set r"
  by (metis map_of_eq_None_iff option.distinct(1))

lemma get_falsy: "\<not> truthy j \<Longrightarrow> get j k = JUndef"
  by (cases j) (auto simp: get_def own_def)

lemma get_found: "get (if truthy found then found else JObj []) k = get found k"
  by (simp add: get_falsy) (simp add: get_def own_def)

section \<open>Sequencing\<close>

lemma mapM_Inr_iff:
  "mapM f xs = Inr ys \<longleftrightarrow> length ys = length xs \<and> (\<forall>i < length xs. f (xs ! i) = Inr (ys ! i))"
proof (induction xs arbitrary: ys)
  case Nil
  show ?case by auto
next
  case (Cons x xs)
  show ?case
  proof (cases ys)
    case Nil
    then show ?thesis by (auto split: sum.splits)
  next
    case (Cons y ys')
    then show ?thesis
      using Cons.IH [of ys'] by (auto split: sum.splits simp: nth_Cons split: nat.splits)
  qed
qed

section \<open>The deployment document does not depend on the contract asked for\<close>

lemma loadDeploymentFile_contract [simp]:
  "loadDeploymentFile env (a\<lparr>contract := c\<rparr>) = loadDeploymentFile env a"
  by (simp add: loadDeploymentFile_def withNetwork_def useBundle_def bundled_def
      pathToFile_def getPathToNetwork_def readOrThrow_def Let_def
      cong: if_cong option.case_cong)

lemma loadDeploymentFile_contract_useOvm [simp]:
  "loadDeploymentFile env (a\<lparr>contract := c, useOvm := u\<rparr>) = loadDeploymentFile env (a\<lparr>useOvm := u\<rparr>)"
  by (simp add: loadDeploymentFile_def withNetwork_def useBundle_def bundled_def
      pathToFile_def getPathToNetwork_def readOrThrow_def Let_def
      cong: if_cong option.case_cong)

lemma withNetwork_useOvm: "withNetwork (a\<lparr>useOvm := u\<rparr>) = (withNetwork a)\<lparr>useOvm := u\<rparr>"
  by (simp add: withNetwork_def)

lemma withNetwork_idem: "withNetwork (withNetwork a) = withNetwork a"
  by (simp add: withNetwork_def)

lemma loadDeploymentFile_withNetwork:
  "loadDeploymentFile env (withNetwork a) = loadDeploymentFile env a"
  by (simp add: loadDeploymentFile_def withNetwork_idem)

lemma getTarget_doc:
  "loadDeploymentFile env (a\<lparr>useOvm := False\<rparr>) = loadDeploymentFile env' (a'\<lparr>useOvm := False\<rparr>) \<Longrightarrow>
   getTarget env (a\<lparr>contract := c, useOvm := False\<rparr>)
     = getTarget env' (a'\<lparr>contract := c, useOvm := False\<rparr>)"
  by (simp add: getTarget_def cong: if_cong)

lemma getSource_doc:
  "loadDeploymentFile env (a\<lparr>useOvm := False\<rparr>) = loadDeploymentFile env' (a'\<lparr>useOvm := False\<rparr>) \<Longrightarrow>
   getSource env (a\<lparr>contract := c, useOvm := False\<rparr>)
     = getSource env' (a'\<lparr>contract := c, useOvm := False\<rparr>)"
  by (simp add: getSource_def cong: if_cong)

lemma getTarget_loaded:
  "loadDeploymentFile env (a\<lparr>useOvm := False\<rparr>) = Inr d \<Longrightarrow>
   getTarget env (a\<lparr>contract := c, useOvm := False\<rparr>)
     = andThen (read_prop d ''targets'') (\<lambda>targets.
         if truthy c then read_prop targets (to_string c) else Inr targets)"
  by (simp add: getTarget_def andThen_def cong: if_cong)

lemma getSource_loaded:
  "loadDeploymentFile env (a\<lparr>useOvm := False\<rparr>) = Inr d \<Longrightarrow>
   getSource env (a\<lparr>contract := c, useOvm := False\<rparr>)
     = andThen (read_prop d ''sources'') (\<lambda>sources.
         if truthy c then read_prop sources (to_string c) else Inr sources)"
  by (simp add: getSource_def andThen_def cong: if_cong)

section \<open>PerpsV2 proxied markets\<close>

lemma loop_useOvm:
  "getPerpsV2ProxiedMarkets_loop env (a\<lparr>useOvm := u\<rparr>) ts
     = getPerpsV2ProxiedMarkets_loop env a ts"
proof (induction ts)
  case Nil
  show ?case by (rule ext) simp
next
  case (Cons t ts)
  show ?case by (rule ext) (simp add: Cons.IH)
qed

lemma markets_useOvm:
  "getPerpsV2ProxiedMarkets_markets env (a\<lparr>useOvm := u\<rparr>) = getPerpsV2ProxiedMarkets_markets env a"
  by (simp add: getPerpsV2ProxiedMarkets_markets_def withNetwork_useOvm loop_useOvm Let_def)

lemma loop_doc:
  assumes "loadDeploymentFile env (a\<lparr>useOvm := False\<rparr>) = loadDeploymentFile env' (a'\<lparr>useOvm := False\<rparr>)"
  shows "getPerpsV2ProxiedMarkets_loop env a ts = getPerpsV2ProxiedMarkets_loop env' a' ts"
proof (induction ts)
  case Nil
  show ?case by (rule ext) simp
next
  case (Cons t ts)
  have T: "\<And>c. getTarget env (a\<lparr>contract := c, useOvm := False\<rparr>)
             = getTarget env' (a'\<lparr>contract := c, useOvm := False\<rparr>)"
    by (rule getTarget_doc [OF assms])
  have S: "\<And>c. getSource env (a\<lparr>contract := c, useOvm := False\<rparr>)
             = getSource env' (a'\<lparr>contract := c, useOvm := False\<rparr>)"
    by (rule getSource_doc [OF assms])
  show ?case by (rule ext) (simp add: Cons.IH T S)
qed

lemma markets_loaded:
  "loadDeploymentFile env (a\<lparr>useOvm := False\<rparr>) = Inr d \<Longrightarrow>
   getPerpsV2ProxiedMarkets_markets env a
     = andThen (read_prop d ''targets'') (\<lambda>ts. andThen (object_entries ts) (\<lambda>es.
         getPerpsV2ProxiedMarkets_loop env (withNetwork a) (map fst es) []))"
  using loadDeploymentFile_withNetwork [of env "a\<lparr>useOvm := False\<rparr>"]
  by (simp add: getPerpsV2ProxiedMarkets_markets_def Let_def withNetwork_useOvm andThen_def)

text \<open>
  C10. \<^verbatim>\<open>getPerpsV2ProxiedMarkets\<close> loads the deployment document, the targets and
  the sources with \<^verbatim>\<open>useOvm\<close> fixed to false: whatever \<^verbatim>\<open>useOvm\<close> the caller
  supplies, the result is the result for \<^verbatim>\<open>useOvm\<close> false; the binding of
  \<^verbatim>\<open>wrap\<close> with \<^verbatim>\<open>useOvm\<close> true gives that result too; and the result is
  decided by the document that \<^verbatim>\<open>loadDeploymentFile\<close> returns for \<^verbatim>\<open>useOvm\<close>
  false, that is, for the folder \<^verbatim>\<open>getFolderNameForNetwork\<close> gives without the OVM
  suffix: two calls that load the same document there return the same.
\<close>

theorem getPerpsV2ProxiedMarkets_useOvm_fixed:
  "getPerpsV2ProxiedMarkets env (a\<lparr>useOvm := u\<rparr>) = getPerpsV2ProxiedMarkets env (a\<lparr>useOvm := False\<rparr>)
   \<and> wrap_getPerpsV2ProxiedMarkets env (b\<lparr>useOvm := u\<rparr>) p
       = getPerpsV2ProxiedMarkets env ((wrap_args b p)\<lparr>useOvm := False\<rparr>)
   \<and> (loadDeploymentFile env (a\<lparr>useOvm := False\<rparr>) = loadDeploymentFile env' (a'\<lparr>useOvm := False\<rparr>)
        \<longrightarrow> getPerpsV2ProxiedMarkets env (a\<lparr>useOvm := u\<rparr>) = getPerpsV2ProxiedMarkets env' (a'\<lparr>useOvm := u'\<rparr>))"
proof (intro conjI impI)
  show "getPerpsV2ProxiedMarkets env (a\<lparr>useOvm := u\<rparr>) = getPerpsV2ProxiedMarkets env (a\<lparr>useOvm := False\<rparr>)"
    by (simp add: getPerpsV2ProxiedMarkets_def markets_useOvm)
next
  have "wrap_args (b\<lparr>useOvm := u\<rparr>) p = (wrap_args b p)\<lparr>useOvm := useOvm (wrap_args (b\<lparr>useOvm := u\<rparr>) p)\<rparr>"
    by (simp add: wrap_args_def cong: option.case_cong)
  then show "wrap_getPerpsV2ProxiedMarkets env (b\<lparr>useOvm := u\<rparr>) p
       = getPerpsV2ProxiedMarkets env ((wrap_args b p)\<lparr>useOvm := False\<rparr>)"
    by (metis wrap_getPerpsV2ProxiedMarkets_def getPerpsV2ProxiedMarkets_def markets_useOvm)
next
  assume d: "loadDeploymentFile env (a\<lparr>useOvm := False\<rparr>) = loadDeploymentFile env' (a'\<lparr>useOvm := False\<rparr>)"
  have d': "loadDeploymentFile env ((withNetwork a)\<lparr>useOvm := False\<rparr>)
          = loadDeploymentFile env' ((withNetwork a')\<lparr>useOvm := False\<rparr>)"
    using d loadDeploymentFile_withNetwork [of env "a\<lparr>useOvm := False\<rparr>"]
      loadDeploymentFile_withNetwork [of env' "a'\<lparr>useOvm := False\<rparr>"]
    by (simp add: withNetwork_useOvm)
  have "getPerpsV2ProxiedMarkets_markets env a = getPerpsV2ProxiedMarkets_markets env' a'"
    by (simp add: getPerpsV2ProxiedMarkets_markets_def Let_def d' loop_doc [OF d'])
  then show "getPerpsV2ProxiedMarkets env (a\<lparr>useOvm := u\<rparr>) = getPerpsV2ProxiedMarkets env' (a'\<lparr>useOvm := u'\<rparr>)"
    by (simp add: getPerpsV2ProxiedMarkets_def markets_useOvm)
qed

text \<open>
  The bundle has a \<^verbatim>\<open>mainnet-ovm\<close> folder with no target; with \<^verbatim>\<open>useOvm\<close> true
  the market of the \<^verbatim>\<open>mainnet\<close> folder is returned all the same.
\<close>

theorem getPerpsV2ProxiedMarkets_useOvm_fixed_witness:
  "getPerpsV2ProxiedMarkets (ex_perps_env (ex_deployment [ex_function ''f'']))
       ((bundle_args None)\<lparr>useOvm := True\<rparr>)
     = Inr (JObj [(''BTC'', JObj [(''abi'', JArr [ex_function ''f'']), (''address'', JStr ''0xA'')])])
   \<and> wrap_getPerpsV2ProxiedMarkets (ex_perps_env (ex_deployment [ex_function ''f'']))
       ((bundle_args (Some ''mainnet''))\<lparr>useOvm := True\<rparr>) no_props
     = Inr (JObj [(''BTC'', JObj [(''abi'', JArr [ex_function ''f'']), (''address'', JStr ''0xA'')])])
   \<and> loadDeploymentFile (ex_perps_env (ex_deployment [ex_function ''f'']))
         ((bundle_args None)\<lparr>useOvm := False\<rparr>)
       = loadDeploymentFile (ex_perps_env (ex_deployment [ex_function ''f'']))
         ((bundle_args (Some ''mainnet''))\<lparr>useOvm := False\<rparr>)
   \<and> getPerpsV2ProxiedMarkets (ex_perps_env (ex_deployment [ex_function ''f'']))
         ((bundle_args None)\<lparr>useOvm := True\<rparr>)
       = getPerpsV2ProxiedMarkets (ex_perps_env (ex_deployment [ex_function ''f'']))
         ((bundle_args (Some ''mainnet''))\<lparr>useOvm := False\<rparr>)"
proof -
  let ?env = "ex_perps_env (ex_deployment [ex_function ''f''])"
  have e1: "getPerpsV2ProxiedMarkets ?env ((bundle_args None)\<lparr>useOvm := False\<rparr>)
     = Inr (JObj [(''BTC'', JObj [(''abi'', JArr [ex_function ''f'']), (''address'', JStr ''0xA'')])])"
    by code_simp
  have e2: "getPerpsV2ProxiedMarkets ?env
              ((wrap_args (bundle_args (Some ''mainnet'')) no_props)\<lparr>useOvm := False\<rparr>)
     = Inr (JObj [(''BTC'', JObj [(''abi'', JArr [ex_function ''f'']), (''address'', JStr ''0xA'')])])"
    by code_simp
  have d: "loadDeploymentFile ?env ((bundle_args None)\<lparr>useOvm := False\<rparr>)
       = loadDeploymentFile ?env ((bundle_args (Some ''mainnet''))\<lparr>useOvm := False\<rparr>)"
    by code_simp
  note t = getPerpsV2ProxiedMarkets_useOvm_fixed
         [where env = ?env and a = "bundle_args None" and u = True
            and b = "bundle_args (Some ''mainnet'')" and p = no_props
            and env' = ?env and a' = "bundle_args (Some ''mainnet'')" and u' = False]
  have r1: "getPerpsV2ProxiedMarkets ?env ((bundle_args None)\<lparr>useOvm := True\<rparr>)
     = Inr (JObj [(''BTC'', JObj [(''abi'', JArr [ex_function ''f'']), (''address'', JStr ''0xA'')])])"
    by (rule trans [OF t [THEN conjunct1] e1])
  have r2: "wrap_getPerpsV2ProxiedMarkets ?env
       ((bundle_args (Some ''mainnet''))\<lparr>useOvm := True\<rparr>) no_props
     = Inr (JObj [(''BTC'', JObj [(''abi'', JArr [ex_function ''f'']), (''address'', JStr ''0xA'')])])"
    by (rule trans [OF t [THEN conjunct2, THEN conjunct1] e2])
  have r3: "getPerpsV2ProxiedMarkets ?env ((bundle_args None)\<lparr>useOvm := True\<rparr>)
       = getPerpsV2ProxiedMarkets ?env ((bundle_args (Some ''mainnet''))\<lparr>useOvm := False\<rparr>)"
    by (rule mp [OF t [THEN conjunct2, THEN conjunct2] d])
  from r1 r2 d r3 show ?thesis by (intro conjI)
qed

lemma three_perms:
  assumes d: "distinct xs" and s: "set xs = {p, v, s}" and ne: "p \<noteq> v" "p \<noteq> s" "v \<noteq> s"
  shows "xs \<in> {[p, v, s], [p, s, v], [v, p, s], [v, s, p], [s, p, v], [s, v, p]}"
proof -
  have "card (set xs) = 3" unfolding s using ne by simp
  then have "length xs = 3" using distinct_card [OF d] by simp
  then obtain x y z where xs: "xs = [x, y, z]"
    by (auto simp: numeral_3_eq_3 length_Suc_conv)
  have m: "x \<in> {p, v, s}" "y \<in> {p, v, s}" "z \<in> {p, v, s}"
    using s unfolding xs by auto
  have n: "x \<noteq> y" "x \<noteq> z" "y \<noteq> z" using d unfolding xs by auto
  show ?thesis unfolding xs using m n by auto
qed

text \<open>
  C2. Let the targets of the deployment be \<^verbatim>\<open>PerpsV2ProxyBTC\<close>,
  \<^verbatim>\<open>PerpsV2MarketViewsBTC\<close> and \<^verbatim>\<open>PerpsV2MarketSettings\<close>, in any order, the
  proxy target with the address \<open>A\<close>, and let the source of the views target have the ABI
  \<open>[f1]\<close>, where \<open>f1\<close> is a fragment of any type but \<^verbatim>\<open>constructor\<close> (a
  constructor is never taken into the ABI of a market). Then the result is exactly the
  mapping of \<^verbatim>\<open>BTC\<close> to the object with \<^verbatim>\<open>abi\<close> \<open>[f1]\<close> and \<^verbatim>\<open>address\<close>
  \<open>A\<close>: the proxy gives the address under the name left when the proxy prefix is removed,
  the views component gives its fragments, and \<^verbatim>\<open>PerpsV2MarketSettings\<close> gives nothing.
  The two properties come in the order in which the code creates them, \<^verbatim>\<open>abi\<close> first,
  whichever target is met first.
\<close>

theorem getPerpsV2ProxiedMarkets_example:
  assumes load: "loadDeploymentFile env (a\<lparr>useOvm := False\<rparr>) = Inr (JObj d)"
    and doc: "own d ''targets'' = JObj ts" "own d ''sources'' = JObj srcs"
    and ts: "distinct (map fst ts)"
      "set ts = {(''PerpsV2ProxyBTC'', JObj p),
                 (''PerpsV2MarketViewsBTC'', JObj v),
                 (''PerpsV2MarketSettings'', JObj s)}"
    and addr: "own p ''address'' = A"
    and src: "own v ''source'' = JStr sn" "sn \<noteq> []"
    and abi: "get (own srcs sn) ''abi'' = JArr [JObj f1]"
    and f1: "own f1 ''type'' \<noteq> JStr ''constructor''"
  shows "getPerpsV2ProxiedMarkets env a
           = Inr (JObj [(''BTC'', JObj [(''abi'', JArr [JObj f1]), (''address'', A)])])"
proof -
  have load': "loadDeploymentFile env ((withNetwork a)\<lparr>useOvm := False\<rparr>) = Inr (JObj d)"
    using load loadDeploymentFile_withNetwork [of env "a\<lparr>useOvm := False\<rparr>"]
    by (simp add: withNetwork_useOvm)
  have nn: "\<not> nullish (own srcs sn)"
    using abi by (auto simp: nullish_def get_def own_def)
  have step3: "consolidateAbi (JArr [JObj f1]) [] = Inr [JObj f1]"
    using f1 by (simp add: consolidateAbi_def iterate_def andThen_def consolidateAbi_step_def
        read_prop_def get_def nullish_def)
  have "distinct ts" using ts(1) by (rule distinct_map [THEN iffD1, THEN conjunct1])
  from three_perms [OF this ts(2)]
  have orders: "ts \<in>
    {[(''PerpsV2ProxyBTC'', JObj p), (''PerpsV2MarketViewsBTC'', JObj v),
      (''PerpsV2MarketSettings'', JObj s)],
     [(''PerpsV2ProxyBTC'', JObj p), (''PerpsV2MarketSettings'', JObj s),
      (''PerpsV2MarketViewsBTC'', JObj v)],
     [(''PerpsV2MarketViewsBTC'', JObj v), (''PerpsV2ProxyBTC'', JObj p),
      (''PerpsV2MarketSettings'', JObj s)],
     [(''PerpsV2MarketViewsBTC'', JObj v), (''PerpsV2MarketSettings'', JObj s),
      (''PerpsV2ProxyBTC'', JObj p)],
     [(''PerpsV2MarketSettings'', JObj s), (''PerpsV2ProxyBTC'', JObj p),
      (''PerpsV2MarketViewsBTC'', JObj v)],
     [(''PerpsV2MarketSettings'', JObj s), (''PerpsV2MarketViewsBTC'', JObj v),
      (''PerpsV2ProxyBTC'', JObj p)]}"
    by simp
  show ?thesis
    unfolding getPerpsV2ProxiedMarkets_def markets_loaded [OF load]
    using src abi nn doc addr orders
    apply (elim insertE emptyE)
    by (simp_all add: getTarget_loaded [OF load'] getSource_loaded [OF load']
        andThen_def read_prop_def object_entries_def nullish_def get_def own_def
        startsWith_def analyzeAndIncludePerpsV2_def excludedContracts_def
        excludedLegacyContracts_def proxyPrefix_def marketPrefix_def prefixes_def
        componentMarketName_def initMarket_def step3 market_json_def)
qed

text \<open>
  The example in the order of the claim, and with the three targets in the opposite order.
\<close>

theorem getPerpsV2ProxiedMarkets_example_witness:
  "getPerpsV2ProxiedMarkets (ex_perps_env (ex_deployment [ex_function ''f''])) (bundle_args None)
     = Inr (JObj [(''BTC'', JObj [(''abi'', JArr [ex_function ''f'']), (''address'', JStr ''0xA'')])])
   \<and> getPerpsV2ProxiedMarkets (ex_perps_env (ex_deployment_reordered [ex_function ''f'']))
         (bundle_args None)
     = Inr (JObj [(''BTC'', JObj [(''abi'', JArr [ex_function ''f'']), (''address'', JStr ''0xA'')])])"
proof -
  have load1: "loadDeploymentFile (ex_perps_env (ex_deployment [ex_function ''f'']))
                 ((bundle_args None)\<lparr>useOvm := False\<rparr>)
      = Inr (JObj [(''targets'', JObj [(''PerpsV2ProxyBTC'', JObj [(''address'', JStr ''0xA'')]),
                     (''PerpsV2MarketViewsBTC'', JObj [(''source'', JStr ''PerpsV2MarketViews'')]),
                     (''PerpsV2MarketSettings'', JObj [(''source'', JStr ''PerpsV2MarketSettings'')])]),
                 (''sources'', JObj [(''PerpsV2MarketViews'', JObj [(''abi'', JArr [ex_function ''f''])])])])"
    by code_simp
  have load2: "loadDeploymentFile (ex_perps_env (ex_deployment_reordered [ex_function ''f'']))
                 ((bundle_args None)\<lparr>useOvm := False\<rparr>)
      = Inr (JObj [(''sources'', JObj [(''PerpsV2MarketViews'', JObj [(''abi'', JArr [ex_function ''f''])])]),
                 (''targets'', JObj [
                     (''PerpsV2MarketSettings'', JObj [(''source'', JStr ''PerpsV2MarketSettings'')]),
                     (''PerpsV2MarketViewsBTC'', JObj [(''source'', JStr ''PerpsV2MarketViews'')]),
                     (''PerpsV2ProxyBTC'',
                      JObj [(''name'', JStr ''PerpsV2ProxyBTC''), (''source'', JStr ''ProxyPerpsV2''),
                            (''address'', JStr ''0xA'')])])])"
    by code_simp
  have e1: "getPerpsV2ProxiedMarkets (ex_perps_env (ex_deployment [ex_function ''f''])) (bundle_args None)
     = Inr (JObj [(''BTC'', JObj [(''abi'', JArr [ex_function ''f'']), (''address'', JStr ''0xA'')])])"
    unfolding ex_function_def
    by (rule getPerpsV2ProxiedMarkets_example [OF load1 [unfolded ex_function_def],
          where sn = "''PerpsV2MarketViews''"])
       (auto simp: own_def get_def)
  have e2: "getPerpsV2ProxiedMarkets (ex_perps_env (ex_deployment_reordered [ex_function ''f'']))
         (bundle_args None)
     = Inr (JObj [(''BTC'', JObj [(''abi'', JArr [ex_function ''f'']), (''address'', JStr ''0xA'')])])"
    unfolding ex_function_def
    by (rule getPerpsV2ProxiedMarkets_example [OF load2 [unfolded ex_function_def],
          where sn = "''PerpsV2MarketViews''"])
       (auto simp: own_def get_def)
  from e1 e2 show ?thesis by (rule conjI)
qed

subsection \<open>The consolidated ABI\<close>

lemma abi_ok_Nil: "abi_ok []"
  by (simp add: abi_ok_def)

lemma abi_ok_snoc:
  assumes "abi_ok frs" "get x ''type'' \<noteq> JStr ''constructor''" "\<forall>f \<in> set frs. \<not> sameFragment x f"
  shows "abi_ok (frs @ [x])"
  unfolding abi_ok_def
proof (intro conjI allI impI ballI)
  fix f assume "f \<in> set (frs @ [x])"
  then show "get f ''type'' \<noteq> JStr ''constructor''"
    using assms(1,2) by (auto simp: abi_ok_def)
next
  fix i j assume ij: "i < j" "j < length (frs @ [x])"
  show "\<not> sameFragment ((frs @ [x]) ! j) ((frs @ [x]) ! i)"
  proof (cases "j < length frs")
    case True
    then show ?thesis using assms(1) ij by (simp add: abi_ok_def nth_append)
  next
    case False
    then have j: "j = length frs" using ij by simp
    then have "frs ! i \<in> set frs" using ij by simp
    then show ?thesis using assms(3) j ij by (simp add: nth_append)
  qed
qed

lemma find_None_iff_all: "find P xs = None \<longleftrightarrow> (\<forall>x \<in> set xs. \<not> P x)"
  by (induction xs) auto

lemma consolidateAbi_step_ok:
  "abi_ok acc \<Longrightarrow> consolidateAbi_step acc x = Inr acc' \<Longrightarrow> abi_ok acc'"
  by (auto simp: consolidateAbi_step_def andThen_def read_prop_def find_None_iff_all
      intro!: abi_ok_snoc split: if_splits)

lemma foldM_step_ok:
  "abi_ok acc \<Longrightarrow> foldM consolidateAbi_step acc xs = Inr acc' \<Longrightarrow> abi_ok acc'"
proof (induction xs arbitrary: acc)
  case Nil
  then show ?case by simp
next
  case (Cons x xs)
  then show ?case
    by (auto split: sum.splits dest: consolidateAbi_step_ok)
qed

lemma consolidateAbi_ok:
  "abi_ok acc \<Longrightarrow> consolidateAbi cur acc = Inr acc' \<Longrightarrow> abi_ok acc'"
  by (auto simp: consolidateAbi_def andThen_def split: sum.splits dest: foldM_step_ok)

lemma markets_ok_update:
  "markets_ok P \<Longrightarrow> abi_ok (abi m) \<Longrightarrow> markets_ok (AList.update k m P)"
  by (induction P) (auto simp: markets_ok_def)

lemma markets_ok_initMarket: "markets_ok P \<Longrightarrow> markets_ok (initMarket P k)"
  by (auto simp: initMarket_def abi_ok_Nil intro: markets_ok_update split: option.splits)

lemma markets_ok_map_entry:
  "markets_ok P \<Longrightarrow> (\<And>m. abi_ok (abi m) \<Longrightarrow> abi_ok (abi (f m))) \<Longrightarrow>
   markets_ok (AList.map_entry k f P)"
  by (induction P) (auto simp: markets_ok_def)

lemma markets_ok_lookup:
  "markets_ok P \<Longrightarrow> abi_ok (case map_of P k of None \<Rightarrow> [] | Some m \<Rightarrow> abi m)"
  by (auto simp: markets_ok_def abi_ok_Nil split: option.splits dest!: map_of_SomeD)

lemma analyze_ok:
  assumes "markets_ok P" "analyzeAndIncludePerpsV2 t td sd P = Inr P'"
  shows "markets_ok P'"
proof -
  have init: "\<And>k. markets_ok (initMarket P k)" using assms(1) by (rule markets_ok_initMarket)
  have cons: "\<And>k cur acc'.
      consolidateAbi cur (case map_of (initMarket P k) k of None \<Rightarrow> [] | Some m \<Rightarrow> abi m) = Inr acc'
      \<Longrightarrow> abi_ok acc'"
    using consolidateAbi_ok [OF markets_ok_lookup [OF init]] by blast
  show ?thesis
  proof (cases "componentMarketName t")
    case None
    then show ?thesis
      using assms init
      by (auto simp: analyzeAndIncludePerpsV2_def andThen_def Let_def
          split: if_splits sum.splits intro!: markets_ok_map_entry)
  next
    case (Some k)
    then show ?thesis
      using assms init cons [of _ k]
      by (auto simp: analyzeAndIncludePerpsV2_def andThen_def Let_def
          split: if_splits sum.splits intro!: markets_ok_map_entry)
  qed
qed

lemma loop_ok:
  "markets_ok P \<Longrightarrow> getPerpsV2ProxiedMarkets_loop env a ts P = Inr P' \<Longrightarrow> markets_ok P'"
proof (induction ts arbitrary: P)
  case Nil
  then show ?case by simp
next
  case (Cons t ts)
  then show ?case
    by (auto simp: andThen_def split: if_splits sum.splits dest: analyze_ok)
qed

lemma markets_result_ok:
  "getPerpsV2ProxiedMarkets_markets env a = Inr P \<Longrightarrow> markets_ok P"
  by (auto simp: getPerpsV2ProxiedMarkets_markets_def Let_def andThen_def markets_ok_def
      split: sum.splits dest!: loop_ok [rotated])

text \<open>
  C6, as amended. In every mapping that \<^verbatim>\<open>getPerpsV2ProxiedMarkets\<close> returns, the
  \<^verbatim>\<open>abi\<close> of every market is a list with no fragment of type \<^verbatim>\<open>constructor\<close>,
  and no two fragments that both have a name (a truthy \<^verbatim>\<open>name\<close>) have the same type
  and the same name. Fragments without a name are outside the uniqueness.
\<close>

theorem getPerpsV2ProxiedMarkets_abi_invariant:
  assumes "getPerpsV2ProxiedMarkets env a = Inr r" and "(marketName, m) \<in> set (entries r)"
  shows "\<exists>frs. get m ''abi'' = JArr frs
           \<and> (\<forall>f \<in> set frs. get f ''type'' \<noteq> JStr ''constructor'')
           \<and> (\<forall>i j. i < j \<and> j < length frs
                  \<and> truthy (get (frs ! i) ''name'') \<and> truthy (get (frs ! j) ''name'')
                \<longrightarrow> \<not> (strict_eq (get (frs ! i) ''type'') (get (frs ! j) ''type'')
                        \<and> strict_eq (get (frs ! i) ''name'') (get (frs ! j) ''name'')))"
proof -
  from assms(1) obtain P where P: "getPerpsV2ProxiedMarkets_markets env a = Inr P"
    and r: "r = JObj (map (\<lambda>(marketName, m). (marketName, market_json m)) P)"
    by (auto simp: getPerpsV2ProxiedMarkets_def andThen_def split: sum.splits)
  from assms(2) r obtain mk where mk: "(marketName, mk) \<in> set P" "m = market_json mk"
    by auto
  have ok: "abi_ok (abi mk)"
    using markets_result_ok [OF P] mk(1) by (auto simp: markets_ok_def)
  have g: "get m ''abi'' = JArr (abi mk)"
    by (simp add: mk(2) market_json_def get_def own_def)
  show ?thesis
  proof (intro exI [of _ "abi mk"] conjI g allI impI ballI)
    fix f assume "f \<in> set (abi mk)"
    then show "get f ''type'' \<noteq> JStr ''constructor''" using ok by (simp add: abi_ok_def)
  next
    fix i j
    assume h: "i < j \<and> j < length (abi mk)
                  \<and> truthy (get (abi mk ! i) ''name'') \<and> truthy (get (abi mk ! j) ''name'')"
    then have "\<not> sameFragment (abi mk ! j) (abi mk ! i)" using ok by (simp add: abi_ok_def)
    with h show "\<not> (strict_eq (get (abi mk ! i) ''type'') (get (abi mk ! j) ''type'')
                        \<and> strict_eq (get (abi mk ! i) ''name'') (get (abi mk ! j) ''name''))"
      by (simp add: sameFragment_def)
  qed
qed

text \<open>
  The claim as stated extends the uniqueness to fragments that lack a name. The test of
  \<^verbatim>\<open>_consolidateAbi\<close> requires both names to be truthy, so two components that each
  have a \<^verbatim>\<open>receive\<close> fragment leave two fragments with the same type and no name.
\<close>

theorem getPerpsV2ProxiedMarkets_abi_counterexample:
  "getPerpsV2ProxiedMarkets (ex_perps_env (ex_deployment2 [ex_receive] [ex_receive]))
     (bundle_args None)
     = Inr (JObj [(''BTC'', JObj [(''abi'', JArr [ex_receive, ex_receive]),
                                 (''address'', JStr ''0xA'')])])"
  by code_simp

theorem getPerpsV2ProxiedMarkets_abi_invariant_witness:
  "getPerpsV2ProxiedMarkets
     (ex_perps_env (ex_deployment2 [ex_function ''f'', ex_constructor, ex_function ''g'']
                                   [ex_function ''f'', ex_receive]))
     (bundle_args None)
     = Inr (JObj [(''BTC'', JObj [(''abi'', JArr [ex_function ''f'', ex_function ''g'', ex_receive]),
                                 (''address'', JStr ''0xA'')])])
   \<and> (\<exists>frs. get (JObj [(''abi'', JArr [ex_function ''f'', ex_function ''g'', ex_receive]),
                        (''address'', JStr ''0xA'')]) ''abi'' = JArr frs
           \<and> (\<forall>f \<in> set frs. get f ''type'' \<noteq> JStr ''constructor'')
           \<and> (\<forall>i j. i < j \<and> j < length frs
                  \<and> truthy (get (frs ! i) ''name'') \<and> truthy (get (frs ! j) ''name'')
                \<longrightarrow> \<not> (strict_eq (get (frs ! i) ''type'') (get (frs ! j) ''type'')
                        \<and> strict_eq (get (frs ! i) ''name'') (get (frs ! j) ''name''))))"
proof -
  have e: "getPerpsV2ProxiedMarkets
     (ex_perps_env (ex_deployment2 [ex_function ''f'', ex_constructor, ex_function ''g'']
                                   [ex_function ''f'', ex_receive]))
     (bundle_args None)
     = Inr (JObj [(''BTC'', JObj [(''abi'', JArr [ex_function ''f'', ex_function ''g'', ex_receive]),
                                 (''address'', JStr ''0xA'')])])"
    by code_simp
  show ?thesis
    using e getPerpsV2ProxiedMarkets_abi_invariant [OF e, of "''BTC''"
        "JObj [(''abi'', JArr [ex_function ''f'', ex_function ''g'', ex_receive]),
               (''address'', JStr ''0xA'')]"]
    by simp
qed

section \<open>Feeds and the asset registry\<close>

lemma set_update_subset: "set (AList.update k v al) \<subseteq> insert (k, v) (set al)"
  by (induction al) auto

lemma wf_assets_update:
  "wf_assets assets \<Longrightarrow> distinct (map fst e) \<Longrightarrow> wf_assets (AList.update k e assets)"
  using set_update_subset [of k e assets] by (auto simp: wf_assets_def)

lemma wf_assets_lookup: "wf_assets assets \<Longrightarrow> map_of assets k = Some e \<Longrightarrow> distinct (map fst e)"
  by (auto simp: wf_assets_def dest!: map_of_SomeD)

lemma getFeeds_mixin_inv:
  assumes "getFeeds_mixin es memo assets = (Inr feeds, assets')"
    and "wf_assets assets" and "feeds_in_registry memo assets"
  shows "wf_assets assets' \<and> feeds_in_registry feeds assets'"
  using assms
proof (induction es memo assets rule: getFeeds_mixin.induct)
  case (1 memo assets)
  then show ?case by simp
next
  case (2 asset entry rest memo assets)
  from "2.prems"(1) obtain target where t: "map_of assets asset = Some target"
    by (auto split: option.splits)
  let ?merged = "assign target entry"
  have d: "distinct (map fst ?merged)"
    using wf_assets_lookup [OF "2.prems"(2) t] by (rule distinct_assign)
  have w: "wf_assets (AList.update asset ?merged assets)"
    using "2.prems"(2) d by (rule wf_assets_update)
  have f: "feeds_in_registry (AList.update asset (JObj ?merged) memo)
             (AList.update asset ?merged assets)"
    using "2.prems"(3) by (auto simp: feeds_in_registry_def update_conv')
  show ?case
    using "2.IH" [OF t refl _ w f] "2.prems"(1) t by (simp add: Let_def)
qed

lemma getFeeds_inv:
  assumes "getFeeds env a assets = (Inr feeds, assets')" "wf_assets assets"
  shows "wf_assets assets' \<and> feeds_in_registry feeds assets'"
proof -
  from assms(1) obtain es where "getFeeds_mixin es [] assets = (Inr feeds, assets')"
    by (auto simp: getFeeds_def split: sum.splits)
  then show ?thesis
    using assms(2) by (rule getFeeds_mixin_inv) (simp add: feeds_in_registry_def)
qed

text \<open>
  C4. The claim is that no accessor changes a shared structure. \<^verbatim>\<open>getFeeds\<close> does:
  \<^verbatim>\<open>Object.assign(assets[asset], entry)\<close> has the registry entry as its target, where
  every other accessor assigns to a fresh object
  (\<^verbatim>\<open>Object.assign({}, assets[...], ...)\<close>). On the example, the call for
  \<^verbatim>\<open>mainnet\<close> returns the feed of \<^verbatim>\<open>BTC\<close> and leaves it written in the registry entry
  of \<^verbatim>\<open>BTC\<close>; \<^verbatim>\<open>getSynths\<close> for \<^verbatim>\<open>testnet\<close>, a network without feeds,
  returns \<^verbatim>\<open>zBTC\<close> without a feed before that call and with the feed of
  \<^verbatim>\<open>mainnet\<close> after it.
\<close>

theorem getFeeds_writes_registry:
  "getFeeds ex_env (bundle_args (Some ''mainnet'')) ex_assets
     = (Inr [(''BTC'', JObj [(''asset'', JStr ''BTC''), (''category'', JStr ''crypto''),
                             (''feed'', JStr ''0xFEED'')])],
        [(''BTC'', [(''asset'', JStr ''BTC''), (''category'', JStr ''crypto''),
                    (''feed'', JStr ''0xFEED'')]),
         (''DEFI'', [(''category'', JStr ''index'')])])
   \<and> snd (getFeeds ex_env (bundle_args (Some ''mainnet'')) ex_assets) \<noteq> ex_assets
   \<and> fst (getSynths ex_env (bundle_args (Some ''testnet'')) ex_assets)
       = Inr (JArr [JObj [(''asset'', JStr ''BTC''), (''category'', JStr ''crypto''),
                          (''name'', JStr ''zBTC'')]])
   \<and> fst (getSynths ex_env (bundle_args (Some ''testnet''))
              (snd (getFeeds ex_env (bundle_args (Some ''mainnet'')) ex_assets)))
       = Inr (JArr [JObj [(''asset'', JStr ''BTC''), (''category'', JStr ''crypto''),
                          (''feed'', JStr ''0xFEED''), (''name'', JStr ''zBTC'')]])"
  by code_simp

section \<open>Synths\<close>

lemma distinct_synth_base: "distinct (map fst (synth_base assets r))"
  by (simp add: synth_base_def distinct_assign)

lemma distinct_synth_feed: "distinct (map fst (synth_feed assets feeds r))"
  by (simp add: synth_feed_def Let_def distinct_assign distinct_synth_base)

lemma own_synth_base_raw:
  "distinct (map fst r) \<Longrightarrow> k \<in> fst ` set r \<Longrightarrow> own (synth_base assets r) k = own r k"
  by (simp add: synth_base_def own_assign)

lemma own_synth_feed_raw:
  assumes "distinct (map fst r)" "k \<in> fst ` set r"
  shows "own (synth_feed assets feeds r) k = own r k"
proof -
  have "k \<in> fst ` set (synth_base assets r)"
    using assms(2) by (simp add: synth_base_def keys_assign)
  then show ?thesis
    using assms by (simp add: synth_feed_def Let_def own_assign distinct_synth_base own_synth_base_raw)
qed

lemma populate_unfold:
  "getSynths_populate assets feeds synths (JObj r) =
     (let s2 = synth_feed assets feeds r
      in andThen
            (case own s2 ''index'' of
               JStr s \<Rightarrow>
                 andThen (find_by_name s synths) (\<lambda>found.
                   let index = get found ''index''
                   in if \<not> truthy index then Inl (index_error (own s2 ''name'') (JStr s))
                      else Inr (assign (assign [] (JObj s2)) (JObj [(''index'', index)])))
             | _ \<Rightarrow> Inr s2)
            (\<lambda>s3.
               if truthy (own s3 ''index'')
               then andThen (array_map (mixin_asset assets) (own s3 ''index'')) (\<lambda>index.
                      Inr (JObj (AList.update ''index'' index s3)))
               else Inr (JObj s3)))"
proof -
  have a: "read_prop (JObj r) ''asset'' = Inr (own r ''asset'')"
    by (simp add: read_prop_def nullish_def get_def)
  show ?thesis
    unfolding getSynths_populate_def a
    by (simp add: andThen_def [of "Inr _"] synth_feed_def synth_base_def get_found Let_def
        cong: json.case_cong if_cong)
qed

lemma populate_other_key:
  assumes "getSynths_populate assets feeds synths (JObj r) = Inr out" "k \<noteq> ''index''"
  shows "get out k = own (synth_feed assets feeds r) k"
proof -
  let ?s2 = "synth_feed assets feeds r"
  have d2: "distinct (map fst ?s2)" by (rule distinct_synth_feed)
  have c: "\<And>v. own (assign (assign [] (JObj ?s2)) (JObj [(''index'', v)])) k = own ?s2 k"
    using assms(2) d2 by (simp add: own_assign own_copy own_notin own_def [of "[]"])
  show ?thesis
    using assms c
    by (auto simp: populate_unfold Let_def andThen_def get_def own_update
        split: json.splits sum.splits if_splits)
qed

lemma populate_raw_key:
  assumes "getSynths_populate assets feeds synths (JObj r) = Inr out"
    and "distinct (map fst r)" "k \<in> fst ` set r" "k \<noteq> ''index''"
  shows "get out k = own r k"
  using populate_other_key [OF assms(1,4)] own_synth_feed_raw [OF assms(2,3)] by simp

lemma mapM_mixin_asset:
  "mapM (mixin_asset assets) xs = Inr ys \<Longrightarrow>
   ys = map (\<lambda>e. JObj (assign (assign [] (asset_entry assets (to_string (get e ''asset'')))) e)) xs"
proof (induction xs arbitrary: ys)
  case Nil
  then show ?case by simp
next
  case (Cons x xs)
  then show ?case
    by (auto simp: mixin_asset_def andThen_def read_prop_def split: sum.splits if_splits)
qed

lemma populate_index_ok:
  assumes "getSynths_populate assets feeds synths (JObj r) = Inr out"
    and "distinct (map fst r)" "own r ''index'' = JStr s"
  shows "\<exists>tgt idx. find_by_name s synths = Inr tgt \<and> get tgt ''index'' = JArr idx
            \<and> get out ''index''
                = JArr (map (\<lambda>e. JObj (assign (assign [] (asset_entry assets
                                                   (to_string (get e ''asset'')))) e)) idx)"
proof -
  let ?s2 = "synth_feed assets feeds r"
  have d2: "distinct (map fst ?s2)" by (rule distinct_synth_feed)
  have i2: "own ?s2 ''index'' = JStr s"
    using assms(2,3) own_synth_feed_raw [OF assms(2) own_key_in [OF assms(3)]] by simp
  have c: "\<And>v. own (assign (assign [] (JObj ?s2)) (JObj [(''index'', v)])) ''index'' = v"
  proof -
    fix v
    have "own [(''index'', v)] ''index'' = v" by (simp add: own_def)
    then show "own (assign (assign [] (JObj ?s2)) (JObj [(''index'', v)])) ''index'' = v"
      by (simp add: own_assign)
  qed
  show ?thesis
    using assms(1) mapM_mixin_asset [of assets]
    by (auto simp: populate_unfold i2 Let_def andThen_def c get_def [of "JObj _"] own_update
        array_map_def split: sum.splits if_splits json.splits)
qed

lemma populate_index_array:
  assumes "getSynths_populate assets feeds synths (JObj r) = Inr out"
    and "distinct (map fst r)" "own r ''index'' = JArr idx"
  shows "get out ''index''
           = JArr (map (\<lambda>e. JObj (assign (assign [] (asset_entry assets
                                              (to_string (get e ''asset'')))) e)) idx)"
proof -
  let ?s2 = "synth_feed assets feeds r"
  have "own r ''index'' \<noteq> JUndef" using assms(3) by simp
  then have i2: "own ?s2 ''index'' = JArr idx"
    using own_synth_feed_raw [OF assms(2) own_key_in'] assms(3) by simp
  show ?thesis
    using assms(1) mapM_mixin_asset [of assets]
    by (auto simp: populate_unfold i2 Let_def andThen_def get_def [of "JObj _"] own_update
        array_map_def split: sum.splits if_splits)
qed

lemma strict_eq_JStr: "strict_eq x (JStr s) = (x = JStr s)"
  by (cases x) simp_all

lemma find_by_name_Inr:
  "find_by_name s xs = Inr x \<Longrightarrow>
     (x = JUndef \<and> (\<forall>j < length xs. get (xs ! j) ''name'' \<noteq> JStr s))
     \<or> (\<exists>j < length xs. x = xs ! j \<and> get (xs ! j) ''name'' = JStr s
            \<and> (\<forall>j' < j. get (xs ! j') ''name'' \<noteq> JStr s))"
proof (induction xs)
  case Nil
  then show ?case by simp
next
  case (Cons y ys)
  show ?case
  proof (cases "get y ''name'' = JStr s")
    case True
    then have "x = y" using Cons.prems by (simp add: strict_eq_JStr split: if_splits)
    with True show ?thesis by (intro disjI2 exI [of _ 0]) simp
  next
    case False
    then have "find_by_name s ys = Inr x"
      using Cons.prems by (simp add: strict_eq_JStr split: if_splits)
    from Cons.IH [OF this] show ?thesis
    proof
      assume "x = JUndef \<and> (\<forall>j<length ys. get (ys ! j) ''name'' \<noteq> JStr s)"
      with False show ?thesis by (auto simp: nth_Cons split: nat.splits)
    next
      assume "\<exists>j<length ys. x = ys ! j \<and> get (ys ! j) ''name'' = JStr s
                \<and> (\<forall>j'<j. get (ys ! j') ''name'' \<noteq> JStr s)"
      then obtain j where j: "j < length ys" "x = ys ! j" "get (ys ! j) ''name'' = JStr s"
        "\<forall>j'<j. get (ys ! j') ''name'' \<noteq> JStr s" by blast
      have "\<forall>j'<Suc j. get ((y # ys) ! j') ''name'' \<noteq> JStr s"
        using False j(4) by (auto simp: nth_Cons split: nat.splits)
      with j show ?thesis by (intro disjI2 exI [of _ "Suc j"]) simp
    qed
  qed
qed

lemma getSynths_populated:
  assumes "\<not> skipPopulate a" "getSynths_load env (withNetwork a) = Inr (JArr synths)"
  shows "getSynths env a assets =
     (case getFeeds env (withNetwork a) assets of
        (Inl e, assets') \<Rightarrow> (Inl e, assets')
      | (Inr feeds, assets') \<Rightarrow>
          (andThen (mapM (getSynths_populate assets' feeds synths) synths) (\<lambda>ys. Inr (JArr ys)),
           assets'))"
proof -
  have "skipPopulate (withNetwork a) = skipPopulate a" by (simp add: withNetwork_def)
  then show ?thesis
    using assms by (simp add: getSynths_def Let_def array_map_def split: prod.splits sum.splits)
qed

lemma getSynths_success:
  assumes "\<not> skipPopulate a" "getSynths_load env (withNetwork a) = Inr (JArr synths)"
    and "fst (getSynths env a assets) = Inr out"
  shows "\<exists>feeds assets' outs. getFeeds env (withNetwork a) assets = (Inr feeds, assets')
           \<and> out = JArr outs \<and> length outs = length synths
           \<and> (\<forall>i < length synths. getSynths_populate assets' feeds synths (synths ! i) = Inr (outs ! i))"
  using assms(3) unfolding getSynths_populated [OF assms(1,2)]
  by (auto simp: andThen_def mapM_Inr_iff split: prod.splits sum.splits)

text \<open>
  What \<^verbatim>\<open>getSynths\<close> does with an \<^verbatim>\<open>index\<close>, on every input. Let the loaded
  synth list hold at position \<open>i\<close> a record whose \<^verbatim>\<open>index\<close> is the string \<open>s\<close>.
  When \<^verbatim>\<open>getSynths\<close> returns, the synth at position \<open>i\<close> has as its
  \<^verbatim>\<open>index\<close> the \<^verbatim>\<open>index\<close> array of the first synth of the same list whose
  \<^verbatim>\<open>name\<close> is \<open>s\<close>, every element replaced by
  \<^verbatim>\<open>Object.assign({}, assets[element.asset], element)\<close>, the merge in which the fields
  of the element win; the same holds for the elements of every \<^verbatim>\<open>index\<close> that is an
  array in the list itself. When no synth has the name \<open>s\<close>, or the first that has it
  has no array as its \<^verbatim>\<open>index\<close>, \<^verbatim>\<open>getSynths\<close> throws and returns nothing. The
  registry \<^verbatim>\<open>assets\<close> of the merge is not the registry as it was loaded: it is the
  registry as the call of \<^verbatim>\<open>getFeeds\<close> inside \<^verbatim>\<open>getSynths\<close> left it.
\<close>

lemma getSynths_index_resolved:
  assumes "\<not> skipPopulate a"
    and "getSynths_load env (withNetwork a) = Inr (JArr synths)"
    and "i < length synths" and "synths ! i = JObj r" and "distinct (map fst r)"
    and "own r ''index'' = JStr s"
  shows "(\<forall>out. fst (getSynths env a assets) = Inr out \<longrightarrow>
            (\<exists>outs j idx. out = JArr outs \<and> length outs = length synths
               \<and> j < length synths \<and> get (synths ! j) ''name'' = JStr s
               \<and> (\<forall>j' < j. get (synths ! j') ''name'' \<noteq> JStr s)
               \<and> get (synths ! j) ''index'' = JArr idx
               \<and> get (outs ! i) ''index''
                   = JArr (map (\<lambda>e. JObj (assign
                                  (assign [] (asset_entry (snd (getFeeds env (withNetwork a) assets))
                                                (to_string (get e ''asset''))))
                                  e))
                            idx)
               \<and> (\<forall>n r' idx'. n < length synths \<and> synths ! n = JObj r'
                      \<and> distinct (map fst r') \<and> own r' ''index'' = JArr idx' \<longrightarrow>
                    get (outs ! n) ''index''
                      = JArr (map (\<lambda>e. JObj (assign
                                  (assign [] (asset_entry (snd (getFeeds env (withNetwork a) assets))
                                                (to_string (get e ''asset''))))
                                  e))
                               idx'))))
       \<and> ((\<forall>j < length synths. get (synths ! j) ''name'' \<noteq> JStr s)
            \<or> (\<exists>j < length synths. get (synths ! j) ''name'' = JStr s
                  \<and> (\<forall>j' < j. get (synths ! j') ''name'' \<noteq> JStr s)
                  \<and> (\<forall>idx. get (synths ! j) ''index'' \<noteq> JArr idx))
           \<longrightarrow> (\<exists>e. fst (getSynths env a assets) = Inl e))"
proof (rule conjI)
  show resolved: "\<forall>out. fst (getSynths env a assets) = Inr out \<longrightarrow>
            (\<exists>outs j idx. out = JArr outs \<and> length outs = length synths
               \<and> j < length synths \<and> get (synths ! j) ''name'' = JStr s
               \<and> (\<forall>j' < j. get (synths ! j') ''name'' \<noteq> JStr s)
               \<and> get (synths ! j) ''index'' = JArr idx
               \<and> get (outs ! i) ''index''
                   = JArr (map (\<lambda>e. JObj (assign
                                  (assign [] (asset_entry (snd (getFeeds env (withNetwork a) assets))
                                                (to_string (get e ''asset''))))
                                  e))
                            idx)
               \<and> (\<forall>n r' idx'. n < length synths \<and> synths ! n = JObj r'
                      \<and> distinct (map fst r') \<and> own r' ''index'' = JArr idx' \<longrightarrow>
                    get (outs ! n) ''index''
                      = JArr (map (\<lambda>e. JObj (assign
                                  (assign [] (asset_entry (snd (getFeeds env (withNetwork a) assets))
                                                (to_string (get e ''asset''))))
                                  e))
                               idx')))"
  proof (intro allI impI)
  fix out assume "fst (getSynths env a assets) = Inr out"
  from getSynths_success [OF assms(1,2) this]
  obtain feeds assets' outs where
    f: "getFeeds env (withNetwork a) assets = (Inr feeds, assets')" and
    o: "out = JArr outs" "length outs = length synths" and
    p: "\<forall>i < length synths. getSynths_populate assets' feeds synths (synths ! i) = Inr (outs ! i)"
    by blast
  from p assms(3,4) have "getSynths_populate assets' feeds synths (JObj r) = Inr (outs ! i)"
    by auto
  from populate_index_ok [OF this assms(5,6)]
  obtain tgt idx where t: "find_by_name s synths = Inr tgt" "get tgt ''index'' = JArr idx"
    and g: "get (outs ! i) ''index''
        = JArr (map (\<lambda>e. JObj (assign (assign [] (asset_entry assets'
                                              (to_string (get e ''asset'')))) e)) idx)"
    by blast
  have "tgt \<noteq> JUndef" using t(2) by (auto simp: get_def own_def)
  with find_by_name_Inr [OF t(1)]
  obtain j where j: "j < length synths" "tgt = synths ! j" "get (synths ! j) ''name'' = JStr s"
    "\<forall>j'<j. get (synths ! j') ''name'' \<noteq> JStr s" by blast
  have extra: "\<forall>n r' idx'. n < length synths \<and> synths ! n = JObj r'
                      \<and> distinct (map fst r') \<and> own r' ''index'' = JArr idx' \<longrightarrow>
                    get (outs ! n) ''index''
                      = JArr (map (\<lambda>e. JObj (assign
                                  (assign [] (asset_entry assets' (to_string (get e ''asset''))))
                                  e))
                               idx')"
  proof (intro allI impI)
    fix n r' idx'
    assume h: "n < length synths \<and> synths ! n = JObj r'
                      \<and> distinct (map fst r') \<and> own r' ''index'' = JArr idx'"
    with p have "getSynths_populate assets' feeds synths (JObj r') = Inr (outs ! n)" by auto
    from populate_index_array [OF this] h
    show "get (outs ! n) ''index''
            = JArr (map (\<lambda>e. JObj (assign
                        (assign [] (asset_entry assets' (to_string (get e ''asset''))))
                        e))
                     idx')"
      by simp
  qed
  show "\<exists>outs j idx. out = JArr outs \<and> length outs = length synths
               \<and> j < length synths \<and> get (synths ! j) ''name'' = JStr s
               \<and> (\<forall>j' < j. get (synths ! j') ''name'' \<noteq> JStr s)
               \<and> get (synths ! j) ''index'' = JArr idx
               \<and> get (outs ! i) ''index''
                   = JArr (map (\<lambda>e. JObj (assign
                                  (assign [] (asset_entry (snd (getFeeds env (withNetwork a) assets))
                                                (to_string (get e ''asset''))))
                                  e))
                            idx)
               \<and> (\<forall>n r' idx'. n < length synths \<and> synths ! n = JObj r'
                      \<and> distinct (map fst r') \<and> own r' ''index'' = JArr idx' \<longrightarrow>
                    get (outs ! n) ''index''
                      = JArr (map (\<lambda>e. JObj (assign
                                  (assign [] (asset_entry (snd (getFeeds env (withNetwork a) assets))
                                                (to_string (get e ''asset''))))
                                  e))
                               idx'))"
    using o j t(2) g f extra by (intro exI [of _ outs] exI [of _ j] exI [of _ idx]) simp
  qed
  show "(\<forall>j < length synths. get (synths ! j) ''name'' \<noteq> JStr s)
            \<or> (\<exists>j < length synths. get (synths ! j) ''name'' = JStr s
                  \<and> (\<forall>j' < j. get (synths ! j') ''name'' \<noteq> JStr s)
                  \<and> (\<forall>idx. get (synths ! j) ''index'' \<noteq> JArr idx))
           \<longrightarrow> (\<exists>e. fst (getSynths env a assets) = Inl e)"
  proof
    assume bad: "(\<forall>j < length synths. get (synths ! j) ''name'' \<noteq> JStr s)
            \<or> (\<exists>j < length synths. get (synths ! j) ''name'' = JStr s
                  \<and> (\<forall>j' < j. get (synths ! j') ''name'' \<noteq> JStr s)
                  \<and> (\<forall>idx. get (synths ! j) ''index'' \<noteq> JArr idx))"
    show "\<exists>e. fst (getSynths env a assets) = Inl e"
    proof (cases "fst (getSynths env a assets)")
      case (Inl e)
      then show ?thesis by blast
    next
      case (Inr out)
      with resolved obtain j idx where j: "j < length synths"
        "get (synths ! j) ''name'' = JStr s" "\<forall>j' < j. get (synths ! j') ''name'' \<noteq> JStr s"
        "get (synths ! j) ''index'' = JArr idx"
        by blast
      from bad show ?thesis
      proof
        assume "\<forall>j < length synths. get (synths ! j) ''name'' \<noteq> JStr s"
        with j show ?thesis by blast
      next
        assume "\<exists>j < length synths. get (synths ! j) ''name'' = JStr s
                  \<and> (\<forall>j' < j. get (synths ! j') ''name'' \<noteq> JStr s)
                  \<and> (\<forall>idx. get (synths ! j) ''index'' \<noteq> JArr idx)"
        then obtain k where k: "k < length synths" "get (synths ! k) ''name'' = JStr s"
          "\<forall>k' < k. get (synths ! k') ''name'' \<noteq> JStr s"
          "\<forall>idx. get (synths ! k) ''index'' \<noteq> JArr idx"
          by blast
        have "j = k"
          using j(2,3) k(2,3) by (meson nat_neq_iff)
        with j(4) k(4) show ?thesis by blast
      qed
    qed
  qed
qed

text \<open>
  On \<^verbatim>\<open>mainnet\<close> the index of \<^verbatim>\<open>iDEFI\<close> is resolved to that of \<^verbatim>\<open>zDEFI\<close>; on
  \<^verbatim>\<open>goerli\<close> the reference cannot be resolved and the call throws.
\<close>

lemma getSynths_index_resolved_example:
  "(\<exists>outs j idx. fst (getSynths ex_env (bundle_args None) ex_assets) = Inr (JArr outs)
       \<and> j < length ex_synths \<and> get (ex_synths ! j) ''name'' = JStr ''zDEFI''
       \<and> get (ex_synths ! j) ''index'' = JArr idx
       \<and> get (outs ! 2) ''index''
           = JArr (map (\<lambda>e. JObj (assign
                          (assign [] (asset_entry
                                        (snd (getFeeds ex_env (withNetwork (bundle_args None)) ex_assets))
                                        (to_string (get e ''asset''))))
                          e))
                    idx)
       \<and> get (outs ! 1) ''index''
           = JArr (map (\<lambda>e. JObj (assign
                          (assign [] (asset_entry
                                        (snd (getFeeds ex_env (withNetwork (bundle_args None)) ex_assets))
                                        (to_string (get e ''asset''))))
                          e))
                    [JObj [(''asset'', JStr ''BTC''), (''weight'', JNum ''2'')]]))
   \<and> (\<exists>e. fst (getSynths ex_env (bundle_args (Some ''goerli'')) ex_assets) = Inl e)"
proof -
  let ?r = "[(''name'', JStr ''iDEFI''), (''asset'', JStr ''DEFI''), (''index'', JStr ''zDEFI'')]"
  let ?z = "[(''name'', JStr ''zDEFI''), (''asset'', JStr ''DEFI''),
             (''index'', JArr [JObj [(''asset'', JStr ''BTC''), (''weight'', JNum ''2'')]])]"
  let ?g = "\<lambda>e. JObj (assign
               (assign [] (asset_entry
                             (snd (getFeeds ex_env (withNetwork (bundle_args None)) ex_assets))
                             (to_string (get e ''asset''))))
               e)"
  have h1: "\<not> skipPopulate (bundle_args n)" for n by (simp add: bundle_args_def)
  have h2: "getSynths_load ex_env (withNetwork (bundle_args None)) = Inr (JArr ex_synths)"
    by code_simp
  have h3: "2 < length ex_synths" by (simp add: ex_synths_def)
  have h4: "ex_synths ! 2 = JObj ?r" by (simp add: ex_synths_def)
  have h5: "distinct (map fst ?r)" by simp
  have h6: "own ?r ''index'' = JStr ''zDEFI''" by (simp add: own_def)
  have z: "1 < length ex_synths \<and> ex_synths ! 1 = JObj ?z \<and> distinct (map fst ?z)
             \<and> own ?z ''index'' = JArr [JObj [(''asset'', JStr ''BTC''), (''weight'', JNum ''2'')]]"
    by (simp add: ex_synths_def own_def)
  have ok: "\<not> isl (fst (getSynths ex_env (bundle_args None) ex_assets))" by code_simp
  then obtain out where out: "fst (getSynths ex_env (bundle_args None) ex_assets) = Inr out"
    by (cases "fst (getSynths ex_env (bundle_args None) ex_assets)") auto
  have g2: "getSynths_load ex_env (withNetwork (bundle_args (Some ''goerli''))) = Inr (JArr [JObj ?r])"
    by code_simp
  have bad: "\<forall>j < length [JObj ?r]. get ([JObj ?r] ! j) ''name'' \<noteq> JStr ''zDEFI''"
    by (simp add: get_def own_def)
  from getSynths_index_resolved [OF h1 h2 h3 h4 h5 h6, of ex_assets] out
  obtain outs j idx where r: "out = JArr outs"
    "j < length ex_synths" "get (ex_synths ! j) ''name'' = JStr ''zDEFI''"
    "get (ex_synths ! j) ''index'' = JArr idx"
    "get (outs ! 2) ''index'' = JArr (map ?g idx)"
    and arrays: "\<forall>n r' idx'. n < length ex_synths \<and> ex_synths ! n = JObj r'
                      \<and> distinct (map fst r') \<and> own r' ''index'' = JArr idx' \<longrightarrow>
                    get (outs ! n) ''index'' = JArr (map ?g idx')"
    by blast
  from arrays z
  have a1: "get (outs ! 1) ''index''
              = JArr (map ?g [JObj [(''asset'', JStr ''BTC''), (''weight'', JNum ''2'')]])"
    by blast
  from getSynths_index_resolved [OF h1 g2 _ _ h5 h6, of 0 ex_assets] bad
  have "\<exists>e. fst (getSynths ex_env (bundle_args (Some ''goerli'')) ex_assets) = Inl e"
    by simp
  with out r a1 show ?thesis by blast
qed

text \<open>
  C1. The claim is that every element of a resolved \<^verbatim>\<open>index\<close> is the merge of the
  registry entry of its asset with the element, the fields of the element winning. The
  placeholder is resolved as the claim says, but the merge is not with the registry entry:
  \<^verbatim>\<open>getSynths\<close> calls \<^verbatim>\<open>getFeeds\<close> first, which writes the feed of every asset
  into the registry entry itself (\<^verbatim>\<open>Object.assign(assets[asset], entry)\<close>), and the
  elements are merged with what it left. On the example, for \<^verbatim>\<open>mainnet\<close>, the
  \<^verbatim>\<open>index\<close> of \<^verbatim>\<open>iDEFI\<close> is that of \<^verbatim>\<open>zDEFI\<close>, and its element carries
  \<^verbatim>\<open>feed: '0xFEED'\<close>, a field of the feeds file that neither the element nor the
  registry entry of \<^verbatim>\<open>BTC\<close> has. The merge of the element with the registry entry,
  \<^verbatim>\<open>Object.assign({}, assets.BTC, element)\<close> on the registry as loaded, has the three
  fields \<^verbatim>\<open>asset\<close>, \<^verbatim>\<open>category\<close> and \<^verbatim>\<open>weight\<close> only.
\<close>

theorem getSynths_index_reads_written_registry:
  "fst (getSynths ex_env (bundle_args (Some ''mainnet'')) ex_assets)
     = Inr (JArr
        [JObj [(''feed'', JStr ''0xRAW''), (''asset'', JStr ''BTC''),
               (''category'', JStr ''crypto''), (''name'', JStr ''zBTC'')],
         JObj [(''category'', JStr ''index''), (''name'', JStr ''zDEFI''),
               (''asset'', JStr ''DEFI''),
               (''index'',
                JArr [JObj [(''asset'', JStr ''BTC''), (''category'', JStr ''crypto''),
                            (''feed'', JStr ''0xFEED''), (''weight'', JNum ''2'')]])],
         JObj [(''category'', JStr ''index''), (''name'', JStr ''iDEFI''),
               (''asset'', JStr ''DEFI''),
               (''index'',
                JArr [JObj [(''asset'', JStr ''BTC''), (''category'', JStr ''crypto''),
                            (''feed'', JStr ''0xFEED''), (''weight'', JNum ''2'')]])],
         JObj [(''feed'', JStr ''0xFEED''), (''asset'', JStr ''BTC''),
               (''category'', JStr ''crypto''), (''name'', JStr ''zETH'')]])
   \<and> asset_entry ex_assets ''BTC''
       = JObj [(''asset'', JStr ''BTC''), (''category'', JStr ''crypto'')]
   \<and> mixin_asset ex_assets (JObj [(''asset'', JStr ''BTC''), (''weight'', JNum ''2'')])
       = Inr (JObj [(''asset'', JStr ''BTC''), (''category'', JStr ''crypto''),
                    (''weight'', JNum ''2'')])"
  by code_simp

text \<open>
  C3, as amended. A synth whose asset has an entry in the feeds mapping carries the
  \<^verbatim>\<open>feed\<close> of that entry when its raw record has no \<^verbatim>\<open>feed\<close> field. A
  \<^verbatim>\<open>feed\<close> field of the raw record is kept: \<^verbatim>\<open>Object.assign({ feed }, synth)\<close>
  has the synth as its source, so the feed of the feeds mapping is a default, and the raw
  record wins for \<^verbatim>\<open>feed\<close> as it does for every other field but \<^verbatim>\<open>index\<close>.
\<close>

theorem getSynths_feed_default:
  assumes "\<not> skipPopulate a"
    and "getSynths_load env (withNetwork a) = Inr (JArr synths)"
    and "wf_assets assets"
    and "getFeeds env (withNetwork a) assets = (Inr feeds, assets')"
    and "i < length synths" and "synths ! i = JObj r" and "distinct (map fst r)"
    and "map_of r ''asset'' = Some k" and "map_of feeds (to_string k) = Some fe"
    and "fst (getSynths env a assets) = Inr out"
  shows "\<exists>outs. out = JArr outs \<and> length outs = length synths
           \<and> get (outs ! i) ''feed''
               = (if ''feed'' \<in> fst ` set r then own r ''feed'' else get fe ''feed'')
           \<and> (\<forall>key \<in> fst ` set r. key \<noteq> ''index'' \<longrightarrow> get (outs ! i) key = own r key)"
proof -
  from getSynths_success [OF assms(1,2,10)] assms(4)
  obtain outs where o: "out = JArr outs" "length outs = length synths" and
    p: "\<forall>i < length synths. getSynths_populate assets' feeds synths (synths ! i) = Inr (outs ! i)"
    by auto
  from p assms(5,6) have pi: "getSynths_populate assets' feeds synths (JObj r) = Inr (outs ! i)"
    by auto
  from getFeeds_inv [OF assms(4,3)] have w: "wf_assets assets'" and fr: "feeds_in_registry feeds assets'"
    by simp_all
  from fr assms(9) obtain e where e: "fe = JObj e" "map_of assets' (to_string k) = Some e"
    by (auto simp: feeds_in_registry_def)
  have de: "distinct (map fst e)" using w e(2) by (rule wf_assets_lookup)
  have ka: "own r ''asset'' = k" using assms(8) by (simp add: own_def)
  have ae: "asset_entry assets' (to_string k) = JObj e" using e(2) by (simp add: asset_entry_def)
  let ?s1 = "synth_base assets' r"
  have s1a: "own ?s1 ''asset'' = k"
    using own_synth_base_raw [OF assms(7) map_of_key_in [OF assms(8)]] ka by simp
  have s1k: "fst ` set ?s1 = fst ` set e \<union> fst ` set r"
    by (simp add: synth_base_def keys_assign ka ae)
  have s1f: "own ?s1 ''feed'' = (if ''feed'' \<in> fst ` set r then own r ''feed'' else own e ''feed'')"
    using assms(7) de
    by (simp add: synth_base_def ka ae own_assign own_copy own_notin own_def [of "[]"])
  have fe_feed: "get fe ''feed'' = own e ''feed''" using e(1) by (simp add: get_def)
  have s2: "synth_feed assets' feeds r = assign [(''feed'', get fe ''feed'')] (JObj ?s1)"
  proof -
    have "own feeds (to_string k) = fe" using assms(9) by (simp add: own_def)
    then show ?thesis using e(1) by (simp add: synth_feed_def Let_def s1a)
  qed
  have "own (synth_feed assets' feeds r) ''feed''
          = (if ''feed'' \<in> fst ` set r then own r ''feed'' else get fe ''feed'')"
    unfolding s2
    by (simp add: own_assign distinct_synth_base s1k s1f fe_feed own_notin)
       (simp add: own_def)
  with populate_other_key [OF pi, of "''feed''"] populate_raw_key [OF pi assms(7)] o
  show ?thesis by simp
qed

text \<open>
  The claim as stated lets the feed entry win over a \<^verbatim>\<open>feed\<close> of the raw record. On
  \<^verbatim>\<open>sepolia\<close> the feed entry of \<^verbatim>\<open>BTC\<close> has the feed \<^verbatim>\<open>0xFEED\<close> and the raw
  record of \<^verbatim>\<open>zBTC\<close> has \<^verbatim>\<open>0xRAW\<close>; the synth returned has \<^verbatim>\<open>0xRAW\<close>.
\<close>

theorem getSynths_feed_counterexample:
  "fst (getFeeds ex_env (bundle_args (Some ''sepolia'')) ex_assets)
     = Inr [(''BTC'', JObj [(''asset'', JStr ''BTC''), (''category'', JStr ''crypto''),
                            (''feed'', JStr ''0xFEED'')])]
   \<and> fst (getSynths ex_env (bundle_args (Some ''sepolia'')) ex_assets)
     = Inr (JArr [JObj [(''feed'', JStr ''0xRAW''), (''asset'', JStr ''BTC''),
                        (''category'', JStr ''crypto''), (''name'', JStr ''zBTC'')]])"
  by code_simp

theorem getSynths_feed_default_witness:
  "\<exists>outs. fst (getSynths ex_env (bundle_args None) ex_assets) = Inr (JArr outs)
      \<and> get (outs ! 3) ''feed'' = JStr ''0xFEED''
      \<and> get (outs ! 0) ''feed'' = JStr ''0xRAW''"
proof -
  let ?r0 = "[(''name'', JStr ''zBTC''), (''asset'', JStr ''BTC''), (''feed'', JStr ''0xRAW'')]"
  let ?r3 = "[(''name'', JStr ''zETH''), (''asset'', JStr ''BTC'')]"
  let ?fe = "JObj [(''asset'', JStr ''BTC''), (''category'', JStr ''crypto''),
                   (''feed'', JStr ''0xFEED'')]"
  let ?assets' = "[(''BTC'', [(''asset'', JStr ''BTC''), (''category'', JStr ''crypto''),
                             (''feed'', JStr ''0xFEED'')]),
                   (''DEFI'', [(''category'', JStr ''index'')])]"
  have h1: "\<not> skipPopulate (bundle_args None)" by (simp add: bundle_args_def)
  have h2: "getSynths_load ex_env (withNetwork (bundle_args None)) = Inr (JArr ex_synths)"
    by code_simp
  have h3: "wf_assets ex_assets" by (simp add: wf_assets_def ex_assets_def)
  have h4: "getFeeds ex_env (withNetwork (bundle_args None)) ex_assets
              = (Inr [(''BTC'', ?fe)], ?assets')"
    by code_simp
  have l: "3 < length ex_synths" "0 < length ex_synths" by (simp_all add: ex_synths_def)
  have e: "ex_synths ! 3 = JObj ?r3" "ex_synths ! 0 = JObj ?r0" by (simp_all add: ex_synths_def)
  have ok: "\<not> isl (fst (getSynths ex_env (bundle_args None) ex_assets))" by code_simp
  then obtain out where out: "fst (getSynths ex_env (bundle_args None) ex_assets) = Inr out"
    by (cases "fst (getSynths ex_env (bundle_args None) ex_assets)") auto
  from getSynths_feed_default [OF h1 h2 h3 h4 l(1) e(1) _ _ _ out, of "JStr ''BTC''" ?fe]
  obtain outs where o3: "out = JArr outs" "get (outs ! 3) ''feed'' = JStr ''0xFEED''"
    by (auto simp: get_def own_def)
  from getSynths_feed_default [OF h1 h2 h3 h4 l(2) e(2) _ _ _ out, of "JStr ''BTC''" ?fe] o3(1)
  have "get (outs ! 0) ''feed'' = JStr ''0xRAW''"
    by (auto simp: own_def)
  with o3 out show ?thesis by blast
qed

section \<open>Missing files\<close>

lemma pathToFile_withNetwork: "pathToFile env (withNetwork a) f = pathToFile env a f"
  by (simp add: pathToFile_def getPathToNetwork_def withNetwork_def
      cong: option.case_cong if_cong)

lemma absent_withNetwork: "absent env (withNetwork a) f = absent env a f"
proof -
  have "fs (withNetwork a) = fs a" by (simp add: withNetwork_def)
  then show ?thesis by (simp only: absent_def pathToFile_withNetwork)
qed

lemma absent_disk: "absent env a file \<Longrightarrow> \<not> useBundle a"
  by (auto simp: absent_def useBundle_def pathToFile_def getPathToNetwork_def
      split: sum.splits option.splits if_splits)

lemma absent_readOrThrow:
  "absent env a file \<Longrightarrow>
   andThen (pathToFile env a file) (\<lambda>p. readOrThrow a p msg) = Inl (Error msg)"
  by (auto simp: absent_def andThen_def readOrThrow_def split: sum.splits option.splits)

lemma absent_readOrElse:
  "absent env a file \<Longrightarrow>
   andThen (pathToFile env a file) (\<lambda>p. readOrElse a p d) = Inr d"
  by (auto simp: absent_def andThen_def readOrElse_def split: sum.splits option.splits)

lemma absent_readOrEmpty:
  "absent env a file \<Longrightarrow> andThen (pathToFile env a file) (readOrEmpty a) = Inr (JArr [])"
  by (auto simp: absent_def andThen_def readOrEmpty_def split: sum.splits option.splits)

text \<open>
  C5. When an explicit location is given and the facet file is absent,
  \<^verbatim>\<open>getSynths\<close>, \<^verbatim>\<open>getFeeds\<close>, \<^verbatim>\<open>loadDeploymentFile\<close> and
  \<^verbatim>\<open>getVersions\<close> throw their error and return no data, and
  \<^verbatim>\<open>getFuturesMarkets\<close>, \<^verbatim>\<open>getPerpsMarkets\<close>, \<^verbatim>\<open>getStakingRewards\<close> and
  \<^verbatim>\<open>getShortingRewards\<close> return the empty list, for every network and every path.
\<close>

theorem missing_facet_file:
  "(absent env a SYNTHS_FILENAME \<longrightarrow>
      getSynths env a assets = (Inl (Error ''Cannot find synth list.''), assets))
   \<and> (absent env a FEEDS_FILENAME \<longrightarrow>
      getFeeds env a assets = (Inl (Error ''Cannot find feeds file.''), assets))
   \<and> (absent env a DEPLOYMENT_FILENAME \<longrightarrow>
      loadDeploymentFile env a
        = Inl (Error (''Cannot find deployment for network: ''
                      @ (case network a of None \<Rightarrow> ''mainnet'' | Some n \<Rightarrow> n) @ ''.'')))
   \<and> (absent env a VERSIONS_FILENAME \<longrightarrow>
      getVersions env a = Inl (Error ''Cannot find versions for network.''))
   \<and> (absent env a FUTURES_MARKETS_FILENAME \<longrightarrow>
      getFuturesMarkets env a assets = Inr (JArr []))
   \<and> (absent env a PERPS_V2_MARKETS_FILENAME \<longrightarrow>
      getPerpsMarkets env a assets = Inr (JArr []))
   \<and> (absent env a STAKING_REWARDS_FILENAME \<longrightarrow>
      getStakingRewards env a = Inr (JArr []))
   \<and> (absent env a SHORTING_REWARDS_FILENAME \<longrightarrow>
      getShortingRewards env a = Inr (JArr []))"
proof (intro conjI impI)
  assume "absent env a SYNTHS_FILENAME"
  then have h: "absent env (withNetwork a) SYNTHS_FILENAME" by (simp add: absent_withNetwork)
  show "getSynths env a assets = (Inl (Error ''Cannot find synth list.''), assets)"
    using absent_disk [OF h] absent_readOrThrow [OF h]
    by (simp add: getSynths_def getSynths_load_def Let_def)
next
  assume h: "absent env a FEEDS_FILENAME"
  show "getFeeds env a assets = (Inl (Error ''Cannot find feeds file.''), assets)"
    using absent_disk [OF h] absent_readOrThrow [OF h]
    by (simp add: getFeeds_def getFeeds_load_def)
next
  assume "absent env a DEPLOYMENT_FILENAME"
  then have h: "absent env (withNetwork a) DEPLOYMENT_FILENAME" by (simp add: absent_withNetwork)
  show "loadDeploymentFile env a
        = Inl (Error (''Cannot find deployment for network: ''
                      @ (case network a of None \<Rightarrow> ''mainnet'' | Some n \<Rightarrow> n) @ ''.''))"
    using absent_disk [OF h] absent_readOrThrow [OF h]
    by (simp add: loadDeploymentFile_def Let_def) (simp add: withNetwork_def)
next
  assume "absent env a VERSIONS_FILENAME"
  then have h: "absent env (withNetwork a) VERSIONS_FILENAME" by (simp add: absent_withNetwork)
  show "getVersions env a = Inl (Error ''Cannot find versions for network.'')"
    using absent_disk [OF h] absent_readOrThrow [OF h]
    by (simp add: getVersions_def Let_def andThen_def)
next
  assume "absent env a FUTURES_MARKETS_FILENAME"
  then have h: "absent env (withNetwork a) FUTURES_MARKETS_FILENAME" by (simp add: absent_withNetwork)
  show "getFuturesMarkets env a assets = Inr (JArr [])"
    using absent_disk [OF h] absent_readOrEmpty [OF h]
    by (simp add: getFuturesMarkets_def Let_def andThen_def array_map_def)
next
  assume "absent env a PERPS_V2_MARKETS_FILENAME"
  then have h: "absent env (withNetwork a) PERPS_V2_MARKETS_FILENAME" by (simp add: absent_withNetwork)
  show "getPerpsMarkets env a assets = Inr (JArr [])"
    using absent_disk [OF h] absent_readOrEmpty [OF h]
    by (simp add: getPerpsMarkets_def Let_def andThen_def array_map_def)
next
  assume "absent env a STAKING_REWARDS_FILENAME"
  then have h: "absent env (withNetwork a) STAKING_REWARDS_FILENAME" by (simp add: absent_withNetwork)
  show "getStakingRewards env a = Inr (JArr [])"
    using absent_disk [OF h] absent_readOrElse [OF h]
    by (simp add: getStakingRewards_def Let_def)
next
  assume "absent env a SHORTING_REWARDS_FILENAME"
  then have h: "absent env (withNetwork a) SHORTING_REWARDS_FILENAME" by (simp add: absent_withNetwork)
  show "getShortingRewards env a = Inr (JArr [])"
    using absent_disk [OF h] absent_readOrElse [OF h]
    by (simp add: getShortingRewards_def Let_def)
qed

theorem missing_facet_file_witness:
  "getSynths ex_env disk_args ex_assets = (Inl (Error ''Cannot find synth list.''), ex_assets)
   \<and> getFeeds ex_env disk_args ex_assets = (Inl (Error ''Cannot find feeds file.''), ex_assets)
   \<and> loadDeploymentFile ex_env disk_args
        = Inl (Error ''Cannot find deployment for network: mainnet.'')
   \<and> getVersions ex_env disk_args = Inl (Error ''Cannot find versions for network.'')
   \<and> getFuturesMarkets ex_env disk_args ex_assets = Inr (JArr [])
   \<and> getPerpsMarkets ex_env disk_args ex_assets = Inr (JArr [])
   \<and> getStakingRewards ex_env disk_args = Inr (JArr [])
   \<and> getShortingRewards ex_env disk_args = Inr (JArr [])"
proof -
  have a: "absent ex_env (withNetwork disk_args) f" "absent ex_env disk_args f" for f
    by (simp_all add: absent_def pathToFile_def disk_args_def withNetwork_def)
  have n: "network disk_args = None" by (simp add: disk_args_def)
  from missing_facet_file [of ex_env disk_args ex_assets] a n show ?thesis by simp
qed

section \<open>Key encoding\<close>

lemma hexDigit_all:
  "\<forall>a \<in> set [0..<16]. hexDigitVal (hexDigit a) = Some a
      \<and> hexDigit a \<noteq> CHR ''x'' \<and> hexDigit a \<noteq> CHR ''X''
      \<and> hexDigit a \<noteq> CHR ''-'' \<and> hexDigit a \<noteq> CHR ''+''"
  by code_simp

lemma hexDigit_facts:
  assumes "a < 16"
  shows "hexDigitVal (hexDigit a) = Some a" "hexDigit a \<noteq> CHR ''x''" "hexDigit a \<noteq> CHR ''X''"
    "hexDigit a \<noteq> CHR ''-''" "hexDigit a \<noteq> CHR ''+''"
proof -
  from assms have "a \<in> set [0..<16]" by simp
  with hexDigit_all show "hexDigitVal (hexDigit a) = Some a" "hexDigit a \<noteq> CHR ''x''"
    "hexDigit a \<noteq> CHR ''X''" "hexDigit a \<noteq> CHR ''-''" "hexDigit a \<noteq> CHR ''+''"
    by blast+
qed

lemma of_char_bounds: "(of_char c :: nat) div 16 < 16" "(of_char c :: nat) mod 16 < 16"
proof -
  have "(of_char c :: nat) < 256" by (rule nat_of_char_less_256)
  then show "(of_char c :: nat) div 16 < 16" by arith
  show "(of_char c :: nat) mod 16 < 16" by simp
qed

lemma parseInt16_hexByte: "parseInt16 (hexByte c) = Some (int (of_char c))"
  using hexDigit_facts [OF of_char_bounds(1) [of c]] hexDigit_facts [OF of_char_bounds(2) [of c]]
  by (simp add: parseInt16_def hexByte_def hasHexPrefix_def Let_def)

lemma fromCharCode_hexByte: "fromCharCode (parseInt16 (hexByte c)) = c"
proof -
  have "(of_char c :: nat) < 256" by (rule nat_of_char_less_256)
  then have "int (of_char c) < 256"
    by (metis of_nat_less_iff of_nat_numeral)
  then have "int (of_char c) mod 65536 = int (of_char c)"
    by (intro mod_pos_pos_trivial) (simp only: of_nat_0_le_iff, linarith)
  moreover have "char_of (int (of_char c)) = c"
    by (simp add: of_nat_of_char)
  ultimately show ?thesis
    by (simp add: parseInt16_hexByte fromCharCode_def)
qed

lemma hexToAscii_loop_hexByte:
  "hexToAscii_loop (hexByte c @ rest) = c # hexToAscii_loop rest"
  using fromCharCode_hexByte [of c] by (simp add: hexByte_def)

lemma hexToAscii_loop_encoded:
  "hexToAscii_loop (concat (map hexByte s) @ rest) = s @ hexToAscii_loop rest"
  by (induction s) (simp_all add: hexToAscii_loop_hexByte)

lemma parseInt16_00: "fromCharCode (parseInt16 ''00'') = CHR 0x00"
  by (simp add: parseInt16_def hasHexPrefix_def hexDigitVal_def fromCharCode_def Let_def
      char_of_eq_iff)

lemma hexToAscii_loop_zeros:
  "hexToAscii_loop (replicate (2 * k) (CHR ''0'')) = replicate k (CHR 0x00)"
  using parseInt16_00 by (induction k) simp_all

lemma length_encoded: "length (concat (map hexByte s)) = 2 * length s"
  by (induction s) (simp_all add: hexByte_def)

lemma hexDigitVal_hexByte: "list_all (\<lambda>d. hexDigitVal d \<noteq> None) (hexByte c)"
  using hexDigit_facts(1) [OF of_char_bounds(1) [of c]] hexDigit_facts(1) [OF of_char_bounds(2) [of c]]
  by (simp add: hexByte_def)

lemma hexDigitVal_encoded: "list_all (\<lambda>d. hexDigitVal d \<noteq> None) (concat (map hexByte s))"
  using hexDigitVal_hexByte by (induction s) simp_all

lemma toBytes32_eq:
  assumes "length s \<le> 32"
  shows "toBytes32 s = ''0x'' @ concat (map hexByte s) @ replicate (2 * (32 - length s)) (CHR ''0'')"
proof (cases "s = []")
  case True
  then show ?thesis
    by (simp add: toBytes32_def asciiToHex_def rightPad_def hasHexPrefix_def Let_def)
       (simp add: numeral_eq_Suc)
next
  case False
  have "64 - 2 * length s = 2 * (32 - length s)" by simp
  with False show ?thesis
    by (simp add: toBytes32_def asciiToHex_def rightPad_def hasHexPrefix_def Let_def
        length_encoded)
qed

text \<open>
  C7, as amended. For a short ASCII string \<open>s\<close>, of at most 32 bytes,
  \<^verbatim>\<open>fromBytes32(toBytes32(s))\<close> is \<open>s\<close> followed by \<open>32 - length s\<close> characters of
  code 0: \<^verbatim>\<open>hexToAscii\<close> keeps the padding. It is \<open>s\<close> itself only when \<open>s\<close> has
  32 characters. The padding is removed by the caller: \<^verbatim>\<open>decodedBytes32\<close> deletes the
  characters of code 0 and gives \<open>s\<close> back when \<open>s\<close> has none of its own. The strings
  of the statement are the lists of at most 32 characters of one byte each (the codes 0
  to 255), which holds every ASCII string of that length; a character of a code above 255
  is not a character of this type, and the statement says nothing of it.
\<close>

theorem fromBytes32_toBytes32_padded:
  assumes "length s \<le> 32"
  shows "fromBytes32 (JStr (toBytes32 s)) = Inr (s @ replicate (32 - length s) (CHR 0x00))
         \<and> (CHR 0x00 \<notin> set s \<longrightarrow>
              decodedBytes32 (JStr (toBytes32 s)) = JObj [(''ascii'', JStr s)])"
proof -
  have z: "list_all (\<lambda>d. hexDigitVal d \<noteq> None) (replicate n (CHR ''0''))" for n
    by (induction n) (simp_all add: hexDigitVal_def)
  have strict: "isHexStrict (toBytes32 s)"
    unfolding toBytes32_eq [OF assms]
    using hexDigitVal_encoded [of s] z
    by (simp add: isHexStrict_def hasHexPrefix_def Let_def)
  have r: "fromBytes32 (JStr (toBytes32 s)) = Inr (s @ replicate (32 - length s) (CHR 0x00))"
    using strict
    by (simp add: fromBytes32_def hexToAscii_def)
       (simp add: toBytes32_eq [OF assms] hexToAscii_loop_encoded hexToAscii_loop_zeros)
  have "filter (\<lambda>c. c \<noteq> CHR 0x00) s = s" if "CHR 0x00 \<notin> set s"
    using that by (induction s) auto
  then show ?thesis
    using r by (simp add: decodedBytes32_def)
qed

text \<open>
  The claim as stated, that decoding gives \<open>s\<close> back, fails for \<^verbatim>\<open>zUSD\<close>.
\<close>

theorem fromBytes32_toBytes32_counterexample:
  "fromBytes32 (JStr (toBytes32 ''zUSD'')) \<noteq> Inr ''zUSD''"
  by code_simp

theorem fromBytes32_toBytes32_padded_witness:
  "fromBytes32 (JStr (toBytes32 ''zUSD'')) = Inr (''zUSD'' @ replicate 28 (CHR 0x00))
   \<and> decodedBytes32 (JStr (toBytes32 ''zUSD'')) = JObj [(''ascii'', JStr ''zUSD'')]"
  using fromBytes32_toBytes32_padded [of "''zUSD''"] by simp

section \<open>Enhancing a decoded call\<close>

text \<open>
  C8. The claim is that \<^verbatim>\<open>enhanceDecodedData\<close> never throws, for tuple values of any
  shape. The two decoders catch their exceptions, but the tuple branch calls
  \<^verbatim>\<open>p.value[key].startsWith('0x')\<close> outside of them, and a field that is not a string
  (here the boolean field \<^verbatim>\<open>flag\<close>) has no \<^verbatim>\<open>startsWith\<close>: the call raises a
  \<^verbatim>\<open>TypeError\<close> and the whole decode is lost.
\<close>

theorem enhanceDecodedData_tuple_throws:
  assumes "isNaN ''flag''"
  shows "enhanceDecodedData isNaN toBN ex_decoded = Inl TypeError"
proof -
  have p: "enhanceParam isNaN toBN
             (JObj [(''name'', JStr ''config''), (''type'', JStr ''tuple''),
                    (''value'', JObj [(''0'', JBool True), (''flag'', JBool True)])])
           = Inl TypeError"
    using assms
    by (cases "isNaN ''0''")
       (simp_all add: enhanceParam_def read_prop_def nullish_def get_def own_def andThen_def
          set_prop_def startsWith_def intTypeFrom_def isDigit_def anyChar_def object_entries_def
          enhanceTupleField_def)
  show ?thesis
    by (simp add: enhanceDecodedData_def ex_decoded_def read_prop_def nullish_def get_def
        own_def andThen_def array_map_def p)
qed

theorem enhanceDecodedData_tuple_throws_witness:
  "enhanceDecodedData (\<lambda>k. k \<noteq> ''0'') (\<lambda>v. Inl (Error ''invalid number'')) ex_decoded
     = Inl TypeError"
  by (rule enhanceDecodedData_tuple_throws) simp

end
